theory Spec2Isabelle
  imports Main
begin

section \<open>The client-server messaging core of MAF\<close>

text \<open>
  The development embeds three parts of the repository:
  \<^item> \<^verbatim>\<open>ServiceRequester.cpp\<close>, the client-side state machine of one service;
  \<^item> \<^verbatim>\<open>IAMessageRouter::deinit\<close>, the shutdown of the in-address-space router;
  \<^item> \<^verbatim>\<open>ipc::local::ParamTrait::translate\<close>, the decoding side of the payload codec.

  Conventions of the embedding.
  \<^item> A \<^verbatim>\<open>CSPayloadIFPtr\<close> is a shared pointer and may be null: it is a
    \<open>Payload option\<close>, and the empty payload \<^verbatim>\<open>{}\<close> is \<open>None\<close>.
  \<^item> An out-parameter \<^verbatim>\<open>ActionCallStatus *callStatus\<close> becomes a returned
    \<open>ActionCallStatus option\<close>: \<open>Some st\<close> is the value \<^verbatim>\<open>assign_ptr\<close> writes through a
    non-null pointer, \<open>None\<close> means that the function assigns nothing.
  \<^item> The \<^verbatim>\<open>Lockable\<close> containers are accessed by one operation at a time; every operation
    of the requester is one step of the model, into which the calls made by the callbacks
    it invokes are woven where the source makes them. The one place where a caller blocks,
    the wait of a synchronous request, takes the calls other threads make meanwhile as
    an argument. Of the locks only the one of the observer list is kept in the state.
  \<^item> The client behind the weak pointer answers an envelope with a status and does not
    call back into the requester before it returns.
  \<^item> What the requester does to its surroundings is kept in trace fields of the state:
    the envelopes passed to \<^verbatim>\<open>sendMessageToServer\<close>, the user callbacks invoked, the
    observers notified.
  \<^item> A user callback runs with no lock of the requester held and may call back into the
    requester. What a callback does inside is its script: a list of calls of
    \<^verbatim>\<open>unregister\<close>, \<^verbatim>\<open>unregisterAll\<close>, \<^verbatim>\<open>abortRequest\<close> and \<^verbatim>\<open>sendRequestAsync\<close>,
    the public operations that invoke no callback themselves. A call another thread makes
    between the fan-out of an update and the write to the cache has the effect of the
    same call made by the last callback of the fan-out, so the scripts cover it. Two
    threads inside one operation at any other point are not modelled.
\<close>

subsection \<open>Identifiers, envelopes and status codes\<close>

text \<open>
  Modelled from the spec: the headers that declare the identifiers, the enumerations
  \<^verbatim>\<open>Availability\<close>, \<^verbatim>\<open>OpCode\<close> and \<^verbatim>\<open>ActionCallStatus\<close>, and the envelope
  \<^verbatim>\<open>CSMessage\<close> are missing. Service and operation identifiers are opaque strings, a
  payload is an opaque sequence of bytes, and the enumerations have the values the spec
  lists and the code names.
\<close>

type_synonym ServiceID = string
type_synonym OpID = string
type_synonym RequestID = nat
type_synonym Payload = "nat list"
type_synonym CSPayloadIFPtr = "Payload option"

datatype Availability = Unknown | Available | Unavailable

datatype OpCode =
    Invalid | Request | Abort | Unregister | StatusGet | StatusRegister
  | SignalRegister | Response | ServiceStatusUpdate

datatype ActionCallStatus =
    Success | ServiceUnavailable | ReceiverUnavailable | InvalidParam | Timeout
  | FailedUnknown

record CSMessage =
  serviceID :: ServiceID
  operationID :: OpID
  operationCode :: OpCode
  msgRequestID :: RequestID
  payload :: CSPayloadIFPtr

text \<open>
  Modelled from the spec: the header declaring \<^verbatim>\<open>RegID\<close> and \<^verbatim>\<open>RequestIDInvalid\<close> is
  missing. A \<^verbatim>\<open>RegID\<close> is the tuple of an \<^verbatim>\<open>OpID\<close> and a \<^verbatim>\<open>RequestID\<close>; request id
  \<open>0\<close> is the reserved invalid one, a default-constructed \<^verbatim>\<open>RegID\<close> carries it, and
  \<^verbatim>\<open>clear\<close> resets to the default.
\<close>

datatype RegID = RegID (opID: OpID) (requestID: RequestID)

definition RequestIDInvalid :: RequestID where
  "RequestIDInvalid = 0"

definition RegID_default :: RegID where
  "RegID_default = RegID [] RequestIDInvalid"

definition valid :: "RegID \<Rightarrow> bool" where
  "valid regID \<longleftrightarrow> requestID regID \<noteq> RequestIDInvalid"

text \<open>
  Modelled from the spec: the \<^verbatim>\<open>IDManager\<close> is missing. It hands out the smallest
  unused positive integer and takes released ones back; it is the list of the ids in use.
  Among the candidates \<open>1, \<dots>, length used + 1\<close> at least one is unused, so the search
  needs no more than \<open>length used\<close> steps.
\<close>

type_synonym IDManager = "RequestID list"

fun firstUnused :: "RequestID list \<Rightarrow> RequestID \<Rightarrow> nat \<Rightarrow> RequestID" where
  "firstUnused used n 0 = n"
| "firstUnused used n (Suc fuel) =
     (if n \<in> set used then firstUnused used (Suc n) fuel else n)"

definition allocateUniqueID :: "IDManager \<Rightarrow> RequestID \<times> IDManager" where
  "allocateUniqueID idMgr =
     (let newID = firstUnused idMgr 1 (length idMgr) in (newID, newID # idMgr))"

definition reclaimID :: "RegID \<Rightarrow> IDManager \<Rightarrow> IDManager" where
  "reclaimID regID idMgr = removeAll (requestID regID) idMgr"

subsection \<open>The state of a requester\<close>

text \<open>
  A callback stored in a table is empty (\<open>NullCallback\<close>), a callback of the user, or the
  lambda \<^verbatim>\<open>onSyncMsgCallback\<close> that \<^verbatim>\<open>sendMessageSync\<close> builds around a promise.
  Promises and observers are shared pointers; they are named by numbers.
\<close>

datatype Callback = NullCallback | UserCallback nat | SyncCallback nat

datatype RegEntry = RegEntry (entryRequestID: RequestID) (entryCallback: Callback)

type_synonym RegEntriesMap = "OpID \<rightharpoonup> RegEntry list"

text \<open>A call a user callback makes on the requester while it runs.\<close>

datatype Action =
    ActUnregister RegID
  | ActUnregisterAll OpID
  | ActAbortRequest RegID
  | ActSendRequestAsync OpID CSPayloadIFPtr Callback

text \<open>
  How an observer's \<^verbatim>\<open>onServiceStatusChanged\<close> ends: it returns or it throws. The
  exceptions are told apart as the handlers of the code do: \<^verbatim>\<open>UnavailableException\<close>,
  another \<^verbatim>\<open>std::exception\<close>, anything else; two standard exceptions the requester's
  own calls can raise have their names.
\<close>

datatype Exception =
    UnavailableException | StdException | UnknownException | FutureError
  | BadFunctionCall

datatype ObserverReaction = Accepts | Throws Exception

text \<open>
  One notification of an observer: the observer, the arguments, and whether the lock of
  the observer list was held during the call.
\<close>

record Notification =
  observer :: nat
  notifiedSid :: ServiceID
  oldStatus :: Availability
  newStatus :: Availability
  lockHeld :: bool

record ServiceRequester =
  sid :: ServiceID
  client :: "(CSMessage \<Rightarrow> ActionCallStatus) option"
  serviceStatus :: Availability
  requestEntriesMap :: RegEntriesMap
  registerEntriesMap :: RegEntriesMap
  propertiesCache :: "OpID \<rightharpoonup> Payload"
  syncRequestPromises :: "nat list"
  idMgr :: IDManager
  serviceStatusObservers :: "nat list"
  observersLock :: bool
  promiseValues :: "nat \<rightharpoonup> CSPayloadIFPtr"
  nextPromise :: nat
  observerReaction :: "nat \<Rightarrow> Availability \<Rightarrow> Availability \<Rightarrow> ObserverReaction"
  callbackScript :: "nat \<Rightarrow> Action list"
  toServer :: "(CSMessage \<times> ActionCallStatus) list"
  invoked :: "(nat \<times> CSPayloadIFPtr) list"
  notified :: "Notification list"

text \<open>
  The fields up to \<open>serviceStatusObservers\<close> are the members of the class. \<open>client\<close> is
  the weak pointer: \<open>None\<close> when it cannot be locked, else the status the client answers
  to an envelope. \<open>observersLock\<close> is the mutex of the \<^verbatim>\<open>Lockable\<close> observer list, true
  while a \<^verbatim>\<open>lock_guard\<close> on it is alive. \<open>propertiesCache\<close> holds non-null payloads
  only: the one place that stores into it is reached after \<^verbatim>\<open>payload->clone()\<close> went
  through.
  The other fields are the surroundings: the value each promise was resolved with, the
  next fresh promise, how every observer reacts to a notification, the script of every
  user callback, and the three traces.
\<close>

text \<open>
  An operation returns, or it does not: an exception leaves it, it dereferences a null
  pointer, or it waits for ever. The state at that point is kept.
\<close>

datatype Cause = Threw Exception | NullDereference | BlockedForever

datatype 'a Result = Returned 'a | NoReturn Cause ServiceRequester

text \<open>
  Modelled from the spec: the class declaration with the members' initial values is
  missing. A requester starts with the status \<^verbatim>\<open>Unknown\<close> and with empty tables.
\<close>

definition newServiceRequester ::
  "ServiceID \<Rightarrow> (CSMessage \<Rightarrow> ActionCallStatus) option
    \<Rightarrow> (nat \<Rightarrow> Availability \<Rightarrow> Availability \<Rightarrow> ObserverReaction)
    \<Rightarrow> (nat \<Rightarrow> Action list) \<Rightarrow> ServiceRequester" where
  "newServiceRequester s c react script =
     \<lparr>sid = s, client = c, serviceStatus = Unknown,
      requestEntriesMap = Map.empty, registerEntriesMap = Map.empty,
      propertiesCache = Map.empty, syncRequestPromises = [], idMgr = [],
      serviceStatusObservers = [], observersLock = False, promiseValues = Map.empty,
      nextPromise = 0,
      observerReaction = react, callbackScript = script, toServer = [], invoked = [],
      notified = []\<rparr>"

text \<open>
  The client is held by a weak pointer; once the client object is destroyed the pointer
  can no longer be locked.
\<close>

definition clientExpired :: "ServiceRequester \<Rightarrow> ServiceRequester" where
  "clientExpired s = s\<lparr>client := None\<rparr>"

subsection \<open>Sending and the two tables of entries\<close>

definition serviceUnavailable :: "ServiceRequester \<Rightarrow> bool" where
  "serviceUnavailable s \<longleftrightarrow> serviceStatus s \<noteq> Available"

definition createCSMessage :: "ServiceRequester \<Rightarrow> OpID \<Rightarrow> OpCode \<Rightarrow> CSPayloadIFPtr \<Rightarrow> CSMessage" where
  "createCSMessage s opid opCode msgContent =
     \<lparr>serviceID = sid s, operationID = opid, operationCode = opCode,
      msgRequestID = RequestIDInvalid, payload = msgContent\<rparr>"

definition setRequestID :: "RequestID \<Rightarrow> CSMessage \<Rightarrow> CSMessage" where
  "setRequestID rid msg = msg\<lparr>msgRequestID := rid\<rparr>"

text \<open>
  \<^verbatim>\<open>sendMessageToServer\<close>: when the weak pointer can be locked the envelope is handed to
  the client and the client's answer is returned; else nothing is sent and the answer is
  \<^verbatim>\<open>ReceiverUnavailable\<close>. The trace \<open>toServer\<close> holds the envelopes handed to the client,
  each with the client's answer.
\<close>

definition sendMessageToServer ::
  "ServiceRequester \<Rightarrow> CSMessage \<Rightarrow> ServiceRequester \<times> ActionCallStatus" where
  "sendMessageToServer s outgoingMsg =
     (case client s of
        Some c \<Rightarrow>
          (s\<lparr>toServer := toServer s @ [(outgoingMsg, c outgoingMsg)]\<rparr>, c outgoingMsg)
      | None \<Rightarrow> (s, ReceiverUnavailable))"

definition entriesOf :: "RegEntriesMap \<Rightarrow> OpID \<Rightarrow> RegEntry list" where
  "entriesOf m opid = (case m opid of None \<Rightarrow> [] | Some es \<Rightarrow> es)"

text \<open>
  \<^verbatim>\<open>storeRegEntry\<close>: a fresh id, the entry appended to the list of the operation
  (\<^verbatim>\<open>operator[]\<close> creates the list when it is missing), the new size returned.
\<close>

definition storeRegEntry ::
  "RegEntriesMap \<Rightarrow> IDManager \<Rightarrow> OpID \<Rightarrow> Callback
    \<Rightarrow> RegEntriesMap \<times> IDManager \<times> RegID \<times> nat" where
  "storeRegEntry regInfoEntries idm propertyID cb =
     (let (newID, idm') = allocateUniqueID idm;
          regEntries = entriesOf regInfoEntries propertyID @ [RegEntry newID cb]
      in (regInfoEntries(propertyID \<mapsto> regEntries), idm', RegID propertyID newID,
          length regEntries))"

text \<open>The loops that erase the first entry carrying a request id.\<close>

fun eraseFirst :: "RequestID \<Rightarrow> RegEntry list \<Rightarrow> RegEntry list" where
  "eraseFirst rid [] = []"
| "eraseFirst rid (e # es) =
     (if entryRequestID e = rid then es else e # eraseFirst rid es)"

fun findEntry :: "RequestID \<Rightarrow> RegEntry list \<Rightarrow> RegEntry option" where
  "findEntry rid [] = None"
| "findEntry rid (e # es) =
     (if entryRequestID e = rid then Some e else findEntry rid es)"

text \<open>
  \<^verbatim>\<open>removeRegEntry\<close>: when the operation has a list, the first entry with the id is
  erased, the id is reclaimed, an empty list is taken out of the map, and the size that
  is left is returned; when the operation has no list the answer is \<open>0\<close>.
\<close>

definition removeRegEntry ::
  "RegEntriesMap \<Rightarrow> IDManager \<Rightarrow> RegID \<Rightarrow> RegEntriesMap \<times> IDManager \<times> nat" where
  "removeRegEntry regInfoEntriesMap idm regID =
     (case regInfoEntriesMap (opID regID) of
        None \<Rightarrow> (regInfoEntriesMap, idm, 0)
      | Some es \<Rightarrow>
          (let entries = eraseFirst (requestID regID) es;
               idm' = reclaimID regID idm
           in if entries = []
              then (regInfoEntriesMap(opID regID := None), idm', 0)
              else (regInfoEntriesMap(opID regID \<mapsto> entries), idm', length entries)))"

definition storeAndSendRequestToServer ::
  "ServiceRequester \<Rightarrow> CSMessage \<Rightarrow> Callback
    \<Rightarrow> ServiceRequester \<times> RegID \<times> ActionCallStatus option" where
  "storeAndSendRequestToServer s outgoingMsg cb =
     (let (m1, idm1, regID, n) =
            storeRegEntry (requestEntriesMap s) (idMgr s) (operationID outgoingMsg) cb;
          s1 = s\<lparr>requestEntriesMap := m1, idMgr := idm1\<rparr>;
          (s2, status) = sendMessageToServer s1 (setRequestID (requestID regID) outgoingMsg)
      in if status \<noteq> Success
         then (let (m3, idm3, k) = removeRegEntry (requestEntriesMap s2) (idMgr s2) regID
               in (s2\<lparr>requestEntriesMap := m3, idMgr := idm3\<rparr>, RegID_default, Some status))
         else (s2, regID, Some status))"

definition sendMessageAsync ::
  "ServiceRequester \<Rightarrow> OpID \<Rightarrow> OpCode \<Rightarrow> CSPayloadIFPtr \<Rightarrow> Callback
    \<Rightarrow> ServiceRequester \<times> RegID \<times> ActionCallStatus option" where
  "sendMessageAsync s operationID' operationCode' msgContent cb =
     storeAndSendRequestToServer s
       (createCSMessage s operationID' operationCode' msgContent) cb"

definition sendRequestAsync ::
  "ServiceRequester \<Rightarrow> OpID \<Rightarrow> CSPayloadIFPtr \<Rightarrow> Callback
    \<Rightarrow> ServiceRequester \<times> RegID \<times> ActionCallStatus option" where
  "sendRequestAsync s opid msgContent cb =
     (if serviceUnavailable s then (s, RegID_default, Some ServiceUnavailable)
      else sendMessageAsync s opid Request msgContent cb)"

text \<open>
  \<^verbatim>\<open>abortRequest\<close>: an invalid id is refused; else the pending entry is erased (its list
  stays in the map) and, when there was one, an \<^verbatim>\<open>Abort\<close> envelope with its request id
  is sent and the id is reclaimed if that send succeeded.
\<close>

definition abortRequest ::
  "ServiceRequester \<Rightarrow> RegID \<Rightarrow> ServiceRequester \<times> ActionCallStatus option" where
  "abortRequest s regID =
     (if \<not> valid regID then (s, Some InvalidParam)
      else (case requestEntriesMap s (opID regID) of
              None \<Rightarrow> (s, None)
            | Some listOfRequests \<Rightarrow>
                (case findEntry (requestID regID) listOfRequests of
                   None \<Rightarrow> (s, None)
                 | Some e \<Rightarrow>
                     (let s1 = s\<lparr>requestEntriesMap := (requestEntriesMap s)
                                   (opID regID \<mapsto> eraseFirst (requestID regID) listOfRequests)\<rparr>;
                          msg = setRequestID (requestID regID)
                                  (createCSMessage s1 (opID regID) Abort None);
                          (s2, status) = sendMessageToServer s1 msg
                      in if status = Success
                         then (s2\<lparr>idMgr := reclaimID regID (idMgr s2)\<rparr>, Some status)
                         else (s2, Some status)))))"

subsection \<open>The property cache and unregistering\<close>

definition getCachedProperty :: "ServiceRequester \<Rightarrow> OpID \<Rightarrow> CSPayloadIFPtr" where
  "getCachedProperty s propertyID = propertiesCache s propertyID"

text \<open>
  \<^verbatim>\<open>cachePropertyStatus\<close> is called with the payload of an update that
  \<^verbatim>\<open>onRegistersUpdated\<close> has already cloned, so the pointer is not null there.
\<close>

definition cachePropertyStatus :: "ServiceRequester \<Rightarrow> OpID \<Rightarrow> CSPayloadIFPtr \<Rightarrow> ServiceRequester" where
  "cachePropertyStatus s propertyID property =
     (case property of
        Some bytes \<Rightarrow> s\<lparr>propertiesCache := (propertiesCache s)(propertyID \<mapsto> bytes)\<rparr>
      | None \<Rightarrow> s)"

definition removeCachedProperty :: "ServiceRequester \<Rightarrow> OpID \<Rightarrow> ServiceRequester" where
  "removeCachedProperty s propertyID =
     s\<lparr>propertiesCache := (propertiesCache s)(propertyID := None)\<rparr>"

definition cachedPropertyUpToDate :: "ServiceRequester \<Rightarrow> OpID \<Rightarrow> bool" where
  "cachedPropertyUpToDate s propertyID \<longleftrightarrow> registerEntriesMap s propertyID \<noteq> None"

definition unregister :: "ServiceRequester \<Rightarrow> RegID \<Rightarrow> ServiceRequester \<times> ActionCallStatus" where
  "unregister s regID =
     (if serviceUnavailable s then (s, ServiceUnavailable)
      else if valid regID then
        (let propertyID = opID regID;
             (m1, idm1, totalRemainer) =
               removeRegEntry (registerEntriesMap s) (idMgr s) regID;
             s1 = s\<lparr>registerEntriesMap := m1, idMgr := idm1\<rparr>
         in if totalRemainer = 0
            then (fst (sendMessageToServer (removeCachedProperty s1 propertyID)
                         (createCSMessage s1 propertyID Unregister None)), Success)
            else (s1, Success))
      else (s, InvalidParam))"

definition unregisterAll :: "ServiceRequester \<Rightarrow> OpID \<Rightarrow> ServiceRequester \<times> ActionCallStatus" where
  "unregisterAll s propertyID =
     (if serviceUnavailable s then (s, ServiceUnavailable)
      else
        (let s1 = s\<lparr>registerEntriesMap := (registerEntriesMap s)(propertyID := None)\<rparr>;
             s2 = fst (sendMessageToServer s1 (createCSMessage s1 propertyID Unregister None))
         in (removeCachedProperty s2 propertyID, Success)))"

subsection \<open>Promises and callbacks\<close>

text \<open>The calls of a callback's script, made in order.\<close>

fun runAction :: "Action \<Rightarrow> ServiceRequester \<Rightarrow> ServiceRequester" where
  "runAction (ActUnregister regID) s = fst (unregister s regID)"
| "runAction (ActUnregisterAll propertyID) s = fst (unregisterAll s propertyID)"
| "runAction (ActAbortRequest regID) s = fst (abortRequest s regID)"
| "runAction (ActSendRequestAsync opid msgContent cb) s =
     fst (sendRequestAsync s opid msgContent cb)"

fun runActions :: "Action list \<Rightarrow> ServiceRequester \<Rightarrow> ServiceRequester" where
  "runActions [] s = s"
| "runActions (a # as) s = runActions as (runAction a s)"

text \<open>
  \<^verbatim>\<open>removeRequestPromies\<close> erases the first occurrence of the promise that
  \<^verbatim>\<open>std::find\<close> meets. \<^verbatim>\<open>std::promise::set_value\<close> on a promise that already holds a
  value throws \<^verbatim>\<open>std::future_error\<close>.
\<close>

definition removeRequestPromies :: "ServiceRequester \<Rightarrow> nat \<Rightarrow> ServiceRequester" where
  "removeRequestPromies s promise =
     s\<lparr>syncRequestPromises := remove1 promise (syncRequestPromises s)\<rparr>"

definition set_value :: "nat \<Rightarrow> CSPayloadIFPtr \<Rightarrow> ServiceRequester \<Rightarrow> ServiceRequester Result" where
  "set_value promise v s =
     (case promiseValues s promise of
        Some old \<Rightarrow> NoReturn (Threw FutureError) s
      | None \<Rightarrow> Returned (s\<lparr>promiseValues := (promiseValues s)(promise \<mapsto> v)\<rparr>))"

text \<open>
  Calling a stored callback: an empty \<^verbatim>\<open>std::function\<close> throws
  \<^verbatim>\<open>std::bad_function_call\<close>; a user callback is recorded with its argument and then
  makes the calls of its script on the requester; the lambda of a synchronous request
  removes its promise from the list and resolves it.
\<close>

fun invokeCallback :: "Callback \<Rightarrow> CSPayloadIFPtr \<Rightarrow> ServiceRequester \<Rightarrow> ServiceRequester Result" where
  "invokeCallback NullCallback msg s = NoReturn (Threw BadFunctionCall) s"
| "invokeCallback (UserCallback c) msg s =
     Returned (runActions (callbackScript s c) (s\<lparr>invoked := invoked s @ [(c, msg)]\<rparr>))"
| "invokeCallback (SyncCallback promise) msg s =
     set_value promise msg (removeRequestPromies s promise)"

subsection \<open>Incoming envelopes\<close>

text \<open>
  The second loop of \<^verbatim>\<open>onRegistersUpdated\<close>: every callback gets a clone of the
  payload; \<^verbatim>\<open>payload->clone()\<close> on a null payload is a null dereference. The
  callbacks are those copied under the lock before the loop; what an earlier callback does
  to the registrations does not change who is called.
\<close>

fun invokeAll :: "Callback list \<Rightarrow> CSPayloadIFPtr \<Rightarrow> ServiceRequester \<Rightarrow> ServiceRequester Result" where
  "invokeAll [] p s = Returned s"
| "invokeAll (cb # cbs) p s =
     (case p of
        None \<Rightarrow> NoReturn NullDereference s
      | Some bytes \<Rightarrow>
          (case invokeCallback cb (Some bytes) s of
             Returned s' \<Rightarrow> invokeAll cbs p s'
           | NoReturn c s' \<Rightarrow> NoReturn c s'))"

definition onRegistersUpdated :: "ServiceRequester \<Rightarrow> CSMessage \<Rightarrow> (ServiceRequester \<times> bool) Result" where
  "onRegistersUpdated s msg =
     (let callbacks = map entryCallback (entriesOf (registerEntriesMap s) (operationID msg))
      in case invokeAll callbacks (payload msg) s of
           Returned s' \<Rightarrow> Returned (s', callbacks \<noteq> [])
         | NoReturn c s' \<Rightarrow> NoReturn c s')"

definition onRequestResult :: "ServiceRequester \<Rightarrow> CSMessage \<Rightarrow> ServiceRequester Result" where
  "onRequestResult s msg =
     (case findEntry (msgRequestID msg) (entriesOf (requestEntriesMap s) (operationID msg)) of
        None \<Rightarrow> Returned s
      | Some e \<Rightarrow>
          (let regEntries = entriesOf (requestEntriesMap s) (operationID msg);
               s1 = s\<lparr>requestEntriesMap := (requestEntriesMap s)
                          (operationID msg \<mapsto> eraseFirst (msgRequestID msg) regEntries)\<rparr>
           in if entryCallback e \<noteq> NullCallback
              then invokeCallback (entryCallback e) (payload msg) s1
              else Returned s1))"

text \<open>
  \<^verbatim>\<open>onIncomingMessage\<close>. An envelope of another service counts as handled. For a
  \<^verbatim>\<open>StatusRegister\<close> update the value is cached after the callbacks have run, and only
  when there was a callback to run; whether the operation still has a registration by
  then is not looked at again.
\<close>

definition onIncomingMessage :: "ServiceRequester \<Rightarrow> CSMessage \<Rightarrow> (ServiceRequester \<times> bool) Result" where
  "onIncomingMessage s csMsg =
     (if serviceID csMsg = sid s then
        (case operationCode csMsg of
           SignalRegister \<Rightarrow>
             (case onRegistersUpdated s csMsg of
                Returned (s', updated) \<Rightarrow> Returned (s', True)
              | NoReturn c s' \<Rightarrow> NoReturn c s')
         | StatusRegister \<Rightarrow>
             (case onRegistersUpdated s csMsg of
                Returned (s', updated) \<Rightarrow>
                  Returned (if updated
                            then cachePropertyStatus s' (operationID csMsg) (payload csMsg)
                            else s', True)
              | NoReturn c s' \<Rightarrow> NoReturn c s')
         | Request \<Rightarrow>
             (case onRequestResult s csMsg of
                Returned s' \<Rightarrow> Returned (s', True)
              | NoReturn c s' \<Rightarrow> NoReturn c s')
         | StatusGet \<Rightarrow>
             (case onRequestResult s csMsg of
                Returned s' \<Rightarrow> Returned (s', True)
              | NoReturn c s' \<Rightarrow> NoReturn c s')
         | _ \<Rightarrow> Returned (s, False))
      else Returned (s, True))"

subsection \<open>Availability and observers\<close>

fun resolveAll :: "nat list \<Rightarrow> ServiceRequester \<Rightarrow> ServiceRequester Result" where
  "resolveAll [] s = Returned s"
| "resolveAll (promise # promises) s =
     (case set_value promise None s of
        Returned s' \<Rightarrow> resolveAll promises s'
      | NoReturn c s' \<Rightarrow> NoReturn c s')"

definition abortAllSyncRequest :: "ServiceRequester \<Rightarrow> ServiceRequester Result" where
  "abortAllSyncRequest s =
     (case resolveAll (syncRequestPromises s) s of
        Returned s' \<Rightarrow> Returned (s'\<lparr>syncRequestPromises := []\<rparr>)
      | NoReturn c s' \<Rightarrow> NoReturn c s')"

definition clearAllAsyncRequests :: "ServiceRequester \<Rightarrow> ServiceRequester" where
  "clearAllAsyncRequests s = s\<lparr>requestEntriesMap := Map.empty\<rparr>"

definition clearAllRegisterEntries :: "ServiceRequester \<Rightarrow> ServiceRequester" where
  "clearAllRegisterEntries s = s\<lparr>registerEntriesMap := Map.empty\<rparr>"

text \<open>
  The loop of \<^verbatim>\<open>forwardServiceStatusToObservers\<close>, which walks the observer list
  itself. Each call is recorded with the state of the list's lock. \<open>passed\<close> are the
  observers before the iterator that stayed in the list, the second argument are those
  from the iterator on. An \<^verbatim>\<open>UnavailableException\<close> erases the observer at the iterator;
  any other exception is thrown on and leaves the list as it is at that moment.
\<close>

fun notifyFrom ::
  "nat list \<Rightarrow> nat list \<Rightarrow> ServiceID \<Rightarrow> Availability \<Rightarrow> Availability
    \<Rightarrow> ServiceRequester \<Rightarrow> ServiceRequester Result" where
  "notifyFrom passed [] sid' old new s = Returned (s\<lparr>serviceStatusObservers := passed\<rparr>)"
| "notifyFrom passed (obs # rest) sid' old new s =
     (let s1 = s\<lparr>notified := notified s @
                   [\<lparr>observer = obs, notifiedSid = sid', oldStatus = old,
                     newStatus = new, lockHeld = observersLock s\<rparr>]\<rparr>
      in case observerReaction s obs old new of
           Accepts \<Rightarrow> notifyFrom (passed @ [obs]) rest sid' old new s1
         | Throws e \<Rightarrow>
             (if e = UnavailableException
              then notifyFrom passed rest sid' old new s1
              else NoReturn (Threw e)
                     (s1\<lparr>serviceStatusObservers := passed @ obs # rest\<rparr>)))"

text \<open>
  The \<^verbatim>\<open>lock_guard\<close> is taken before the loop and released when the function is left,
  by return or by exception.
\<close>

definition forwardServiceStatusToObservers ::
  "ServiceRequester \<Rightarrow> ServiceID \<Rightarrow> Availability \<Rightarrow> Availability \<Rightarrow> ServiceRequester Result" where
  "forwardServiceStatusToObservers s sid' old new =
     (case notifyFrom [] (serviceStatusObservers s) sid' old new (s\<lparr>observersLock := True\<rparr>) of
        Returned s' \<Rightarrow> Returned (s'\<lparr>observersLock := False\<rparr>)
      | NoReturn c s' \<Rightarrow> NoReturn c (s'\<lparr>observersLock := False\<rparr>))"

definition onServiceStatusChanged ::
  "ServiceRequester \<Rightarrow> ServiceID \<Rightarrow> Availability \<Rightarrow> Availability \<Rightarrow> ServiceRequester Result" where
  "onServiceStatusChanged s sid' old new =
     (if sid' = sid s \<and> new \<noteq> serviceStatus s then
        (let s1 = s\<lparr>serviceStatus := new\<rparr>
         in if new = Unavailable then
              (case abortAllSyncRequest s1 of
                 Returned s2 \<Rightarrow>
                   forwardServiceStatusToObservers
                     (clearAllRegisterEntries (clearAllAsyncRequests s2)) sid' old new
               | NoReturn c s' \<Rightarrow> NoReturn c s')
            else forwardServiceStatusToObservers s1 sid' old new)
      else Returned s)"

text \<open>
  \<^verbatim>\<open>registerServiceStatusObserver\<close>: the status is read and the observer is pushed
  inside one critical section; the notification follows after the lock is released.
  The argument is \<open>None\<close> for a null pointer.
\<close>

definition registerServiceStatusObserver ::
  "ServiceRequester \<Rightarrow> nat option \<Rightarrow> ServiceRequester Result" where
  "registerServiceStatusObserver s obsv =
     (case obsv of
        None \<Rightarrow> Returned s
      | Some obs \<Rightarrow>
          (let locked = s\<lparr>observersLock := True\<rparr>;
               currentServiceStatus = serviceStatus locked;
               pushed = locked\<lparr>serviceStatusObservers := serviceStatusObservers locked @ [obs]\<rparr>;
               s1 = pushed\<lparr>observersLock := False\<rparr>
           in if currentServiceStatus = Available then
                (let s2 = s1\<lparr>notified := notified s1 @
                              [\<lparr>observer = obs, notifiedSid = sid s1, oldStatus = Unknown,
                                newStatus = Available, lockHeld = observersLock s1\<rparr>]\<rparr>
                 in case observerReaction s obs Unknown Available of
                      Accepts \<Rightarrow> Returned s2
                    | Throws e \<Rightarrow> NoReturn (Threw e) s2)
              else Returned s1))"

definition unregisterServiceStatusObserver :: "ServiceRequester \<Rightarrow> nat \<Rightarrow> ServiceRequester" where
  "unregisterServiceStatusObserver s obs =
     (let locked = s\<lparr>observersLock := True\<rparr>;
          removed = locked\<lparr>serviceStatusObservers :=
                      removeAll obs (serviceStatusObservers locked)\<rparr>
      in removed\<lparr>observersLock := False\<rparr>)"

subsection \<open>Registrations\<close>

definition registerNotification ::
  "ServiceRequester \<Rightarrow> OpID \<Rightarrow> OpCode \<Rightarrow> Callback
    \<Rightarrow> (ServiceRequester \<times> RegID \<times> ActionCallStatus option) Result" where
  "registerNotification s opid opCode cb =
     (if cb = NullCallback then Returned (s, RegID_default, Some InvalidParam)
      else
        (let (m1, idm1, regID, sameRegisterCount) =
               storeRegEntry (registerEntriesMap s) (idMgr s) opid cb;
             s1 = s\<lparr>registerEntriesMap := m1, idMgr := idm1\<rparr>
         in if sameRegisterCount = 1 then
              (let registerMessage = setRequestID (requestID regID)
                                       (createCSMessage s1 opid opCode None);
                   (s2, status) = sendMessageToServer s1 registerMessage
               in if status \<noteq> Success
                  then (let (m3, idm3, k) =
                              removeRegEntry (registerEntriesMap s2) (idMgr s2) regID
                        in Returned (s2\<lparr>registerEntriesMap := m3, idMgr := idm3\<rparr>,
                                     RegID_default, Some status))
                  else Returned (s2, regID, Some status))
            else if opCode = StatusRegister then
              (case getCachedProperty s1 opid of
                 Some cachedProperty \<Rightarrow>
                   (case invokeCallback cb (Some cachedProperty) s1 of
                      Returned s2 \<Rightarrow> Returned (s2, regID, Some Success)
                    | NoReturn c s' \<Rightarrow> NoReturn c s')
               | None \<Rightarrow> Returned (s1, regID, Some Success))
            else Returned (s1, regID, None)))"

definition registerStatus ::
  "ServiceRequester \<Rightarrow> OpID \<Rightarrow> Callback
    \<Rightarrow> (ServiceRequester \<times> RegID \<times> ActionCallStatus option) Result" where
  "registerStatus s propertyID cb =
     (if serviceUnavailable s then Returned (s, RegID_default, Some ServiceUnavailable)
      else registerNotification s propertyID StatusRegister cb)"

definition registerSignal ::
  "ServiceRequester \<Rightarrow> OpID \<Rightarrow> Callback
    \<Rightarrow> (ServiceRequester \<times> RegID \<times> ActionCallStatus option) Result" where
  "registerSignal s eventID cb =
     (if serviceUnavailable s then Returned (s, RegID_default, Some ServiceUnavailable)
      else registerNotification s eventID SignalRegister cb)"

subsection \<open>Synchronous requests\<close>

text \<open>
  While the caller of a synchronous request waits on the future, other threads work on
  the requester: they deliver envelopes and availability changes. \<open>during\<close> lists those
  calls in the order in which they take the locks, up to the moment the waiting ends.
  The future is ready exactly when one of them has resolved the promise.
\<close>

datatype ConcurrentCall =
    Incoming CSMessage
  | StatusChanged ServiceID Availability Availability

fun concurrentCall :: "ConcurrentCall \<Rightarrow> ServiceRequester \<Rightarrow> ServiceRequester Result" where
  "concurrentCall (Incoming csMsg) s =
     (case onIncomingMessage s csMsg of
        Returned (s', handled) \<Rightarrow> Returned s'
      | NoReturn c s' \<Rightarrow> NoReturn c s')"
| "concurrentCall (StatusChanged sid' old new) s = onServiceStatusChanged s sid' old new"

fun runConcurrently :: "ConcurrentCall list \<Rightarrow> ServiceRequester \<Rightarrow> ServiceRequester Result" where
  "runConcurrently [] s = Returned s"
| "runConcurrently (e # es) s =
     (case concurrentCall e s of
        Returned s' \<Rightarrow> runConcurrently es s'
      | NoReturn c s' \<Rightarrow> NoReturn c s')"

text \<open>
  \<^verbatim>\<open>RequestTimeoutMs\<close> counts milliseconds in a signed 64-bit integer; its \<^verbatim>\<open>max()\<close> asks
  to wait without a limit.
\<close>

type_synonym RequestTimeoutMs = nat

definition RequestTimeoutMs_max :: RequestTimeoutMs where
  "RequestTimeoutMs_max = 9223372036854775807"

text \<open>
  \<^verbatim>\<open>sendMessageSync\<close>. \<^verbatim>\<open>make_shared\<close> gives a new promise, which holds no value;
  it is pushed, the request goes out through
  \<^verbatim>\<open>sendMessageAsync\<close> with the lambda as callback, and a valid \<^verbatim>\<open>RegID\<close> starts the
  wait. With the maximal timeout \<^verbatim>\<open>get()\<close> returns the value once the promise is
  resolved and blocks otherwise. With a finite timeout a ready future gives its value
  (a null value falls through to the final \<^verbatim>\<open>return {}\<close>, which is the same), and an
  expired wait calls \<^verbatim>\<open>abortRequest\<close> and reports \<^verbatim>\<open>Timeout\<close>. Nothing in the
  \<^verbatim>\<open>try\<close> block throws in this model, so the two handlers are never entered.
\<close>

definition sendMessageSync ::
  "ServiceRequester \<Rightarrow> OpID \<Rightarrow> OpCode \<Rightarrow> CSPayloadIFPtr \<Rightarrow> RequestTimeoutMs
    \<Rightarrow> ConcurrentCall list
    \<Rightarrow> (ServiceRequester \<times> CSPayloadIFPtr \<times> ActionCallStatus option) Result" where
  "sendMessageSync s operationID' opCode msgContent timeout during =
     (let promise = nextPromise s;
          s0 = s\<lparr>nextPromise := Suc promise,
                 promiseValues := (promiseValues s)(promise := None),
                 syncRequestPromises := syncRequestPromises s @ [promise]\<rparr>;
          (s1, regID, callStatus) =
            sendMessageAsync s0 operationID' opCode msgContent (SyncCallback promise)
      in if valid regID then
           (case runConcurrently during s1 of
              NoReturn c s' \<Rightarrow> NoReturn c s'
            | Returned s2 \<Rightarrow>
                (if timeout = RequestTimeoutMs_max then
                   (case promiseValues s2 promise of
                      Some msg \<Rightarrow> Returned (s2, msg, callStatus)
                    | None \<Rightarrow> NoReturn BlockedForever s2)
                 else
                   (case promiseValues s2 promise of
                      Some msg \<Rightarrow> Returned (s2, msg, callStatus)
                    | None \<Rightarrow>
                        (let (s3, abortStatus) = abortRequest s2 regID
                         in Returned (s3, None, Some Timeout)))))
         else Returned (removeRequestPromies s1 promise, None, callStatus))"

definition sendRequest ::
  "ServiceRequester \<Rightarrow> OpID \<Rightarrow> CSPayloadIFPtr \<Rightarrow> RequestTimeoutMs \<Rightarrow> ConcurrentCall list
    \<Rightarrow> (ServiceRequester \<times> CSPayloadIFPtr \<times> ActionCallStatus option) Result" where
  "sendRequest s opid msgContent timeout during =
     (if serviceUnavailable s then Returned (s, None, Some ServiceUnavailable)
      else sendMessageSync s opid Request msgContent timeout during)"

definition getStatus ::
  "ServiceRequester \<Rightarrow> OpID \<Rightarrow> RequestTimeoutMs \<Rightarrow> ConcurrentCall list
    \<Rightarrow> (ServiceRequester \<times> CSPayloadIFPtr \<times> ActionCallStatus option) Result" where
  "getStatus s propertyID timeout during =
     (if cachedPropertyUpToDate s propertyID
      then Returned (s, getCachedProperty s propertyID, None)
      else if serviceUnavailable s then Returned (s, None, Some ServiceUnavailable)
      else sendMessageSync s propertyID StatusGet None timeout during)"

text \<open>The overload of \<^verbatim>\<open>getStatus\<close> that takes a callback.\<close>

definition getStatusAsync ::
  "ServiceRequester \<Rightarrow> OpID \<Rightarrow> Callback \<Rightarrow> (ServiceRequester \<times> ActionCallStatus) Result" where
  "getStatusAsync s propertyID cb =
     (if cachedPropertyUpToDate s propertyID then
        (case invokeCallback cb (getCachedProperty s propertyID) s of
           Returned s' \<Rightarrow> Returned (s', Success)
         | NoReturn c s' \<Rightarrow> NoReturn c s')
      else
        (let (s', regID, callStatus) = sendMessageAsync s propertyID StatusGet None cb
         in Returned (s', (case callStatus of Some st \<Rightarrow> st | None \<Rightarrow> FailedUnknown))))"

subsection \<open>The in-address-space router\<close>

text \<open>
  \<^verbatim>\<open>IAMessageRouter\<close> derives from \<^verbatim>\<open>ClientBase\<close> and \<^verbatim>\<open>ServerBase\<close>, whose sources are
  missing. Each base is kept as the number of \<^verbatim>\<open>init\<close> and \<^verbatim>\<open>deinit\<close> calls it has
  received, and what the \<open>n\<close>-th call of each answers is a parameter of the router.
\<close>

record IAMessageRouter =
  clientInitCalls :: nat
  serverInitCalls :: nat
  clientDeinitCalls :: nat
  serverDeinitCalls :: nat
  clientInitAnswer :: "nat \<Rightarrow> bool"
  serverInitAnswer :: "nat \<Rightarrow> bool"
  clientDeinitAnswer :: "nat \<Rightarrow> bool"
  serverDeinitAnswer :: "nat \<Rightarrow> bool"

definition ClientBase_init :: "IAMessageRouter \<Rightarrow> IAMessageRouter \<times> bool" where
  "ClientBase_init r =
     (r\<lparr>clientInitCalls := Suc (clientInitCalls r)\<rparr>, clientInitAnswer r (clientInitCalls r))"

definition ServerBase_init :: "IAMessageRouter \<Rightarrow> IAMessageRouter \<times> bool" where
  "ServerBase_init r =
     (r\<lparr>serverInitCalls := Suc (serverInitCalls r)\<rparr>, serverInitAnswer r (serverInitCalls r))"

definition ClientBase_deinit :: "IAMessageRouter \<Rightarrow> IAMessageRouter \<times> bool" where
  "ClientBase_deinit r =
     (r\<lparr>clientDeinitCalls := Suc (clientDeinitCalls r)\<rparr>,
      clientDeinitAnswer r (clientDeinitCalls r))"

definition ServerBase_deinit :: "IAMessageRouter \<Rightarrow> IAMessageRouter \<times> bool" where
  "ServerBase_deinit r =
     (r\<lparr>serverDeinitCalls := Suc (serverDeinitCalls r)\<rparr>,
      serverDeinitAnswer r (serverDeinitCalls r))"

text \<open>\<^verbatim>\<open>&&\<close> evaluates its right operand only when the left one is true.\<close>

definition IAMessageRouter_init :: "IAMessageRouter \<Rightarrow> IAMessageRouter \<times> bool" where
  "IAMessageRouter_init r =
     (let (r1, ok) = ClientBase_init r in if ok then ServerBase_init r1 else (r1, False))"

definition IAMessageRouter_deinit :: "IAMessageRouter \<Rightarrow> IAMessageRouter \<times> bool" where
  "IAMessageRouter_deinit r =
     (let (r1, ok) = ClientBase_deinit r in if ok then ClientBase_deinit r1 else (r1, False))"

definition newRouter :: IAMessageRouter where
  "newRouter =
     \<lparr>clientInitCalls = 0, serverInitCalls = 0, clientDeinitCalls = 0,
      serverDeinitCalls = 0, clientInitAnswer = (\<lambda>n. True), serverInitAnswer = (\<lambda>n. True),
      clientDeinitAnswer = (\<lambda>n. True), serverDeinitAnswer = (\<lambda>n. True)\<rparr>"

subsection \<open>Decoding a payload\<close>

text \<open>
  \<^verbatim>\<open>ParamTrait::translate\<close> from a payload to a message. The payload pointer may be
  null, and the \<^verbatim>\<open>IncomingPayload\<close> behind it may have no byte stream. The deserializer
  \<^verbatim>\<open>srz::DSR\<close> is not among the sources: it is the parameter \<open>dsr\<close>, which for a byte
  stream either fills the message and leaves the stream's fail flag set or not, or throws
  a \<^verbatim>\<open>std::exception\<close>, or throws something else. The one handler of the function is
  for \<^verbatim>\<open>std::exception\<close>; any other exception leaves the function.
\<close>

text \<open>
  Modelled from the spec: \<^verbatim>\<open>TranslationStatus\<close> is declared in a missing header; its four
  values are those the spec lists. \<^verbatim>\<open>Success\<close> is written \<open>Success_translation\<close>, the
  plain name being the one of \<^verbatim>\<open>ActionCallStatus\<close>.
\<close>

datatype TranslationStatus = Success_translation | NoSource | SourceCorrupted | DestSrcMismatch

type_synonym ByteStream = "nat list"

record IncomingPayload =
  stream :: "ByteStream option"

datatype 'm Deserialized = Extracted 'm bool | ThrowsStdException | ThrowsOther

text \<open>
  How a call of \<^verbatim>\<open>translate\<close> ends: it returns a pointer to a message, null or not, or an
  exception leaves it. Beside that stands what the call has written through a non-null
  \<^verbatim>\<open>status\<close> pointer: \<open>None\<close> when it has written nothing.
\<close>

datatype 'm Translated = Returns "'m option" | Escapes

definition translate ::
  "(ByteStream \<Rightarrow> 'm Deserialized) \<Rightarrow> IncomingPayload option
    \<Rightarrow> 'm Translated \<times> TranslationStatus option" where
  "translate dsr pl =
     (case pl of
        None \<Rightarrow> (Returns None, Some NoSource)
      | Some incomingPayload \<Rightarrow>
          (case stream incomingPayload of
             None \<Rightarrow> (Returns None, Some NoSource)
           | Some ibytestream \<Rightarrow>
               (case dsr ibytestream of
                  Extracted content failed \<Rightarrow>
                    (Returns (Some content),
                     Some (if \<not> failed then Success_translation else SourceCorrupted))
                | ThrowsStdException \<Rightarrow> (Returns None, Some DestSrcMismatch)
                | ThrowsOther \<Rightarrow> (Escapes, None))))"

text \<open>
  A small deserializer to run the decoder on: one byte is a message, trailing bytes
  leave the stream failed, no byte at all is an error reported by a \<^verbatim>\<open>std::exception\<close>,
  and a leading byte 255 makes it throw a plain integer.
\<close>

definition byteDeserializer :: "ByteStream \<Rightarrow> nat Deserialized" where
  "byteDeserializer bs =
     (case bs of
        [] \<Rightarrow> ThrowsStdException
      | b # trailing \<Rightarrow>
          (if b = 255 then ThrowsOther
           else if trailing = [] then Extracted b False
           else Extracted b True))"

subsection \<open>Where an operation leaves the requester\<close>

fun finalState :: "ServiceRequester Result \<Rightarrow> ServiceRequester" where
  "finalState (Returned s) = s"
| "finalState (NoReturn c s) = s"

fun stateAfter :: "(ServiceRequester \<times> 'a) Result \<Rightarrow> ServiceRequester" where
  "stateAfter (Returned (s, x)) = s"
| "stateAfter (NoReturn c s) = s"

subsection \<open>Envelopes of a synchronous request\<close>




subsection \<open>Invariants and reachable states\<close>

text \<open>
  Cache coherence in the direction the code keeps: a cached property belongs to an
  operation with at least one registration.
\<close>

definition cacheCoherent :: "ServiceRequester \<Rightarrow> bool" where
  "cacheCoherent s \<longleftrightarrow>
     (\<forall>opid. propertiesCache s opid \<noteq> None \<longrightarrow> entriesOf (registerEntriesMap s) opid \<noteq> [])"

text \<open>No user callback calls back into the requester.\<close>

definition inertCallbacks :: "ServiceRequester \<Rightarrow> bool" where
  "inertCallbacks s \<longleftrightarrow> (\<forall>c. callbackScript s c = [])"

text \<open>
  The promises in \<^verbatim>\<open>syncRequestPromises_\<close> are distinct, were created earlier, and have
  not been resolved.
\<close>

definition promisesPending :: "ServiceRequester \<Rightarrow> bool" where
  "promisesPending s \<longleftrightarrow>
     distinct (syncRequestPromises s)
     \<and> (\<forall>p \<in> set (syncRequestPromises s). p < nextPromise s \<and> promiseValues s p = None)"

text \<open>No call of the list announces that the service became unavailable.\<close>

fun withoutLoss :: "ConcurrentCall list \<Rightarrow> bool" where
  "withoutLoss [] \<longleftrightarrow> True"
| "withoutLoss (Incoming csMsg # es) \<longleftrightarrow> withoutLoss es"
| "withoutLoss (StatusChanged sid' old new # es) \<longleftrightarrow> new \<noteq> Unavailable \<and> withoutLoss es"

text \<open>
  The states a requester reaches from its construction through its public operations,
  through what the transport delivers, and through the loss of its client. Where an
  operation does not return, the state it stopped in counts: a caller blocked in a
  synchronous request is such a state. With \<open>disturbed = False\<close> the runs are those in
  which the service never becomes \<^verbatim>\<open>Unavailable\<close> and the operations run one at a time,
  no callback calling back into the requester; with \<open>disturbed = True\<close> all runs are
  meant.
\<close>

inductive reachable :: "bool \<Rightarrow> ServiceRequester \<Rightarrow> bool" for disturbed :: bool where
  rConstruct:
    "disturbed \<or> (\<forall>cb. script cb = [])
      \<Longrightarrow> reachable disturbed (newServiceRequester sid' c react script)"
| rClientExpired: "reachable disturbed s \<Longrightarrow> reachable disturbed (clientExpired s)"
| rStatusChanged:
    "reachable disturbed s \<Longrightarrow> disturbed \<or> new \<noteq> Unavailable
      \<Longrightarrow> reachable disturbed (finalState (onServiceStatusChanged s sid' old new))"
| rIncoming:
    "reachable disturbed s \<Longrightarrow> reachable disturbed (stateAfter (onIncomingMessage s csMsg))"
| rRegisterStatus:
    "reachable disturbed s \<Longrightarrow> reachable disturbed (stateAfter (registerStatus s opid cb))"
| rRegisterSignal:
    "reachable disturbed s \<Longrightarrow> reachable disturbed (stateAfter (registerSignal s opid cb))"
| rUnregister: "reachable disturbed s \<Longrightarrow> reachable disturbed (fst (unregister s regID))"
| rUnregisterAll: "reachable disturbed s \<Longrightarrow> reachable disturbed (fst (unregisterAll s opid))"
| rGetStatus:
    "reachable disturbed s \<Longrightarrow> disturbed \<or> withoutLoss during
      \<Longrightarrow> reachable disturbed (stateAfter (getStatus s opid timeout during))"
| rGetStatusAsync:
    "reachable disturbed s \<Longrightarrow> reachable disturbed (stateAfter (getStatusAsync s opid cb))"
| rSendRequestAsync:
    "reachable disturbed s
      \<Longrightarrow> reachable disturbed (fst (sendRequestAsync s opid msgContent cb))"
| rSendRequest:
    "reachable disturbed s \<Longrightarrow> disturbed \<or> withoutLoss during
      \<Longrightarrow> reachable disturbed (stateAfter (sendRequest s opid msgContent timeout during))"
| rAbortRequest: "reachable disturbed s \<Longrightarrow> reachable disturbed (fst (abortRequest s regID))"
| rRegisterObserver:
    "reachable disturbed s
      \<Longrightarrow> reachable disturbed (finalState (registerServiceStatusObserver s obsv))"
| rUnregisterObserver:
    "reachable disturbed s \<Longrightarrow> reachable disturbed (unregisterServiceStatusObserver s obs)"

subsection \<open>Concrete requesters\<close>

text \<open>
  A requester of service \<open>svc\<close> whose client accepts every envelope but those for the
  operation \<open>down\<close>, and whose callbacks do not call back. Observer \<open>2\<close> has gone away
  and answers with \<^verbatim>\<open>UnavailableException\<close>, observer \<open>3\<close> throws another
  \<^verbatim>\<open>std::exception\<close>, all others return.
\<close>

definition demoReaction :: "nat \<Rightarrow> Availability \<Rightarrow> Availability \<Rightarrow> ObserverReaction" where
  "demoReaction obs old new =
     (if obs = 2 then Throws UnavailableException
      else if obs = 3 then Throws StdException
      else Accepts)"

definition demoClient :: "CSMessage \<Rightarrow> ActionCallStatus" where
  "demoClient csMsg = (if operationID csMsg = ''down'' then ReceiverUnavailable else Success)"

definition demoRequester :: ServiceRequester where
  "demoRequester = newServiceRequester ''svc'' (Some demoClient) demoReaction (\<lambda>cb. [])"

definition demoAvailable :: ServiceRequester where
  "demoAvailable = finalState (onServiceStatusChanged demoRequester ''svc'' Unknown Available)"

text \<open>
  The requester after a first registration for the property \<open>x\<close>, and after the
  server's update carrying the value \<open>[5]\<close>.
\<close>

definition demoRegistered :: ServiceRequester where
  "demoRegistered = stateAfter (registerStatus demoAvailable ''x'' (UserCallback 1))"

definition demoUpdate :: CSMessage where
  "demoUpdate = \<lparr>serviceID = ''svc'', operationID = ''x'', operationCode = StatusRegister,
                  msgRequestID = 1, payload = Some [5]\<rparr>"

definition demoUpdated :: ServiceRequester where
  "demoUpdated = stateAfter (onIncomingMessage demoRegistered demoUpdate)"





definition demoObserved :: "nat list \<Rightarrow> ServiceRequester" where
  "demoObserved observers =
     fold (\<lambda>obs s. finalState (registerServiceStatusObserver s (Some obs))) observers
       demoRequester"

text \<open>The requester after a synchronous request that nobody answered within its 50 ms.\<close>

definition demoTimedOut :: ServiceRequester where
  "demoTimedOut = stateAfter (sendRequest demoAvailable ''echo'' (Some [1, 2]) 50 [])"


definition demoOrphaned :: ServiceRequester where
  "demoOrphaned = clientExpired demoUpdated"





section \<open>Properties\<close>

subsection \<open>What an operation leaves alone\<close>

text \<open>
  What an operation leaves alone, stated once for every observation \<open>g\<close> of the state
  that does not depend on the fields the operation writes.
\<close>

lemma sendMessageToServer_frame:
  assumes "\<And>s x. g (s\<lparr>toServer := x\<rparr>) = g s"
  shows "g (fst (sendMessageToServer s msg)) = g s"
  by (simp add: sendMessageToServer_def assms split: option.splits)

lemma storeAndSendRequestToServer_frame:
  assumes "\<And>s x. g (s\<lparr>toServer := x\<rparr>) = g s"
    and "\<And>s x. g (s\<lparr>requestEntriesMap := x\<rparr>) = g s"
    and "\<And>s x. g (s\<lparr>idMgr := x\<rparr>) = g s"
  shows "g (fst (storeAndSendRequestToServer s msg cb)) = g s"
  by (simp add: storeAndSendRequestToServer_def sendMessageToServer_def Let_def split_def assms
      split: option.splits)

lemma sendMessageAsync_frame:
  assumes "\<And>s x. g (s\<lparr>toServer := x\<rparr>) = g s"
    and "\<And>s x. g (s\<lparr>requestEntriesMap := x\<rparr>) = g s"
    and "\<And>s x. g (s\<lparr>idMgr := x\<rparr>) = g s"
  shows "g (fst (sendMessageAsync s opid opCode msgContent cb)) = g s"
  unfolding sendMessageAsync_def by (rule storeAndSendRequestToServer_frame) (rule assms)+

lemma sendRequestAsync_frame:
  assumes "\<And>s x. g (s\<lparr>toServer := x\<rparr>) = g s"
    and "\<And>s x. g (s\<lparr>requestEntriesMap := x\<rparr>) = g s"
    and "\<And>s x. g (s\<lparr>idMgr := x\<rparr>) = g s"
  shows "g (fst (sendRequestAsync s opid msgContent cb)) = g s"
  by (simp add: sendRequestAsync_def sendMessageAsync_frame [of g] assms)

lemma abortRequest_frame:
  assumes "\<And>s x. g (s\<lparr>toServer := x\<rparr>) = g s"
    and "\<And>s x. g (s\<lparr>requestEntriesMap := x\<rparr>) = g s"
    and "\<And>s x. g (s\<lparr>idMgr := x\<rparr>) = g s"
  shows "g (fst (abortRequest s regID)) = g s"
  by (simp add: abortRequest_def sendMessageToServer_def Let_def split_def assms
      split: option.splits)

lemma unregister_frame:
  assumes "\<And>s x. g (s\<lparr>toServer := x\<rparr>) = g s"
    and "\<And>s x. g (s\<lparr>registerEntriesMap := x\<rparr>) = g s"
    and "\<And>s x. g (s\<lparr>propertiesCache := x\<rparr>) = g s"
    and "\<And>s x. g (s\<lparr>idMgr := x\<rparr>) = g s"
  shows "g (fst (unregister s regID)) = g s"
  by (simp add: unregister_def removeRegEntry_def sendMessageToServer_def
      removeCachedProperty_def Let_def split_def assms split: option.splits)

lemma unregisterAll_frame:
  assumes "\<And>s x. g (s\<lparr>toServer := x\<rparr>) = g s"
    and "\<And>s x. g (s\<lparr>registerEntriesMap := x\<rparr>) = g s"
    and "\<And>s x. g (s\<lparr>propertiesCache := x\<rparr>) = g s"
  shows "g (fst (unregisterAll s opid)) = g s"
  by (simp add: unregisterAll_def sendMessageToServer_def removeCachedProperty_def Let_def assms
      split: option.splits)

text \<open>
  The calls of a callback's script write the two tables, the cache, the ids and the trace
  of envelopes, and nothing else.
\<close>

lemma runAction_frame:
  assumes "\<And>s x. g (s\<lparr>toServer := x\<rparr>) = g s"
    and "\<And>s x. g (s\<lparr>requestEntriesMap := x\<rparr>) = g s"
    and "\<And>s x. g (s\<lparr>registerEntriesMap := x\<rparr>) = g s"
    and "\<And>s x. g (s\<lparr>propertiesCache := x\<rparr>) = g s"
    and "\<And>s x. g (s\<lparr>idMgr := x\<rparr>) = g s"
  shows "g (runAction a s) = g s"
proof (cases a)
  case (ActUnregister regID)
  then show ?thesis by (simp add: unregister_frame [of g] assms)
next
  case (ActUnregisterAll propertyID)
  then show ?thesis by (simp add: unregisterAll_frame [of g] assms)
next
  case (ActAbortRequest regID)
  then show ?thesis by (simp add: abortRequest_frame [of g] assms)
next
  case (ActSendRequestAsync opid msgContent cb)
  then show ?thesis by (simp add: sendRequestAsync_frame [of g] assms)
qed

lemma runActions_frame:
  assumes "\<And>s x. g (s\<lparr>toServer := x\<rparr>) = g s"
    and "\<And>s x. g (s\<lparr>requestEntriesMap := x\<rparr>) = g s"
    and "\<And>s x. g (s\<lparr>registerEntriesMap := x\<rparr>) = g s"
    and "\<And>s x. g (s\<lparr>propertiesCache := x\<rparr>) = g s"
    and "\<And>s x. g (s\<lparr>idMgr := x\<rparr>) = g s"
  shows "g (runActions as s) = g s"
proof (induction as arbitrary: s)
  case Nil
  then show ?case by simp
next
  case (Cons a as)
  have "g (runAction a s) = g s"
    by (rule runAction_frame) (rule assms)+
  with Cons.IH [of "runAction a s"] show ?case by simp
qed

lemma set_value_frame:
  assumes "\<And>s x. g (s\<lparr>promiseValues := x\<rparr>) = g s"
  shows "g (finalState (set_value promise v s)) = g s"
  by (simp add: set_value_def assms split: option.splits)





lemma resolveAll_frame:
  assumes "\<And>s x. g (s\<lparr>promiseValues := x\<rparr>) = g s"
  shows "g (finalState (resolveAll ps s)) = g s"
proof (induction ps arbitrary: s)
  case Nil
  then show ?case by simp
next
  case (Cons p ps)
  have step: "g (finalState (set_value p None s)) = g s"
    by (rule set_value_frame) (rule assms)
  show ?case
  proof (cases "set_value p None s")
    case (Returned s')
    with step Cons.IH [of s'] show ?thesis by simp
  next
    case (NoReturn c s')
    with step show ?thesis by simp
  qed
qed


lemma notifyFrom_frame:
  assumes "\<And>s x. g (s\<lparr>notified := x\<rparr>) = g s"
    and "\<And>s x. g (s\<lparr>serviceStatusObservers := x\<rparr>) = g s"
  shows "g (finalState (notifyFrom passed rest sid' old new s)) = g s"
proof (induction rest arbitrary: passed s)
  case Nil
  then show ?case by (simp add: assms)
next
  case (Cons obs rest)
  show ?case
  proof (cases "observerReaction s obs old new")
    case Accepts
    then show ?thesis by (simp add: Let_def Cons.IH assms)
  next
    case (Throws e)
    then show ?thesis by (simp add: Let_def Cons.IH assms)
  qed
qed

lemma forwardServiceStatusToObservers_frame:
  assumes "\<And>s x. g (s\<lparr>notified := x\<rparr>) = g s"
    and "\<And>s x. g (s\<lparr>serviceStatusObservers := x\<rparr>) = g s"
    and "\<And>s x. g (s\<lparr>observersLock := x\<rparr>) = g s"
  shows "g (finalState (forwardServiceStatusToObservers s sid' old new)) = g s"
proof -
  let ?run = "notifyFrom [] (serviceStatusObservers s) sid' old new (s\<lparr>observersLock := True\<rparr>)"
  have "g (finalState ?run) = g (s\<lparr>observersLock := True\<rparr>)"
    by (rule notifyFrom_frame) (rule assms)+
  then show ?thesis
    by (cases ?run) (simp_all add: forwardServiceStatusToObservers_def assms)
qed










subsection \<open>The concrete requesters, evaluated\<close>

lemma demoAvailable_eq: "demoAvailable = demoRequester\<lparr>serviceStatus := Available\<rparr>"
  by (simp add: demoAvailable_def demoRequester_def newServiceRequester_def
      onServiceStatusChanged_def forwardServiceStatusToObservers_def)

lemma demoRegistered_eq:
  "demoRegistered = demoAvailable
     \<lparr>registerEntriesMap := [''x'' \<mapsto> [RegEntry 1 (UserCallback 1)]], idMgr := [1],
      toServer := [(\<lparr>serviceID = ''svc'', operationID = ''x'', operationCode = StatusRegister,
                     msgRequestID = 1, payload = None\<rparr>, Success)]\<rparr>"
  by (simp add: demoRegistered_def demoAvailable_eq demoRequester_def newServiceRequester_def
      registerStatus_def serviceUnavailable_def registerNotification_def storeRegEntry_def
      allocateUniqueID_def entriesOf_def sendMessageToServer_def demoClient_def createCSMessage_def
      setRequestID_def RequestIDInvalid_def Let_def)

lemma demoUpdated_eq:
  "demoUpdated = demoRegistered
     \<lparr>propertiesCache := [''x'' \<mapsto> [5]], invoked := [(1, Some [5])]\<rparr>"
  by (simp add: demoUpdated_def demoUpdate_def demoRegistered_eq demoAvailable_eq demoRequester_def
      newServiceRequester_def onIncomingMessage_def onRegistersUpdated_def entriesOf_def
      cachePropertyStatus_def Let_def)



lemma demo_second_registerStatus:
  "registerStatus demoUpdated ''x'' (UserCallback 2)
     = Returned (demoUpdated
         \<lparr>registerEntriesMap :=
            [''x'' \<mapsto> [RegEntry 1 (UserCallback 1), RegEntry 2 (UserCallback 2)]],
          idMgr := [2, 1], invoked := [(1, Some [5]), (2, Some [5])]\<rparr>,
         RegID ''x'' 2, Some Success)"
  by (simp add: demoUpdated_eq demoRegistered_eq demoAvailable_eq demoRequester_def
      newServiceRequester_def registerStatus_def serviceUnavailable_def
      registerNotification_def storeRegEntry_def allocateUniqueID_def entriesOf_def
      getCachedProperty_def Let_def numeral_2_eq_2)


lemma demoObserved_124:
  "demoObserved [1, 2, 4] = demoRequester\<lparr>serviceStatusObservers := [1, 2, 4]\<rparr>"
  by (simp add: demoObserved_def demoRequester_def newServiceRequester_def
      registerServiceStatusObserver_def)

lemma demoObserved_134:
  "demoObserved [1, 3, 4] = demoRequester\<lparr>serviceStatusObservers := [1, 3, 4]\<rparr>"
  by (simp add: demoObserved_def demoRequester_def newServiceRequester_def
      registerServiceStatusObserver_def)

lemma reachable_demoAvailable: "reachable disturbed demoAvailable"
  unfolding demoAvailable_def demoRequester_def
  by (intro reachable.rStatusChanged reachable.rConstruct) simp_all


lemma reachable_demoUpdated: "reachable disturbed demoUpdated"
  unfolding demoUpdated_def demoRegistered_def
  by (intro reachable.rIncoming reachable.rRegisterStatus reachable_demoAvailable)




lemma reachable_demoOrphaned: "reachable disturbed demoOrphaned"
  unfolding demoOrphaned_def by (intro reachable.rClientExpired reachable_demoUpdated)





subsection \<open>Callbacks that do not call back\<close>

lemma inertCallbacks_update [simp]:
  "inertCallbacks (s\<lparr>sid := a\<rparr>) = inertCallbacks s"
  "inertCallbacks (s\<lparr>client := b\<rparr>) = inertCallbacks s"
  "inertCallbacks (s\<lparr>serviceStatus := c\<rparr>) = inertCallbacks s"
  "inertCallbacks (s\<lparr>requestEntriesMap := d\<rparr>) = inertCallbacks s"
  "inertCallbacks (s\<lparr>registerEntriesMap := e\<rparr>) = inertCallbacks s"
  "inertCallbacks (s\<lparr>propertiesCache := f\<rparr>) = inertCallbacks s"
  "inertCallbacks (s\<lparr>syncRequestPromises := g\<rparr>) = inertCallbacks s"
  "inertCallbacks (s\<lparr>idMgr := h\<rparr>) = inertCallbacks s"
  "inertCallbacks (s\<lparr>serviceStatusObservers := i\<rparr>) = inertCallbacks s"
  "inertCallbacks (s\<lparr>promiseValues := j\<rparr>) = inertCallbacks s"
  "inertCallbacks (s\<lparr>nextPromise := k\<rparr>) = inertCallbacks s"
  "inertCallbacks (s\<lparr>observerReaction := l\<rparr>) = inertCallbacks s"
  "inertCallbacks (s\<lparr>toServer := m\<rparr>) = inertCallbacks s"
  "inertCallbacks (s\<lparr>invoked := n\<rparr>) = inertCallbacks s"
  "inertCallbacks (s\<lparr>notified := p\<rparr>) = inertCallbacks s"
  "inertCallbacks (s\<lparr>observersLock := q\<rparr>) = inertCallbacks s"
  by (simp_all add: inertCallbacks_def)






subsection \<open>The cache and the registrations\<close>

lemma cacheCoherent_update [simp]:
  "cacheCoherent (s\<lparr>sid := a\<rparr>) = cacheCoherent s"
  "cacheCoherent (s\<lparr>client := b\<rparr>) = cacheCoherent s"
  "cacheCoherent (s\<lparr>serviceStatus := c\<rparr>) = cacheCoherent s"
  "cacheCoherent (s\<lparr>requestEntriesMap := d\<rparr>) = cacheCoherent s"
  "cacheCoherent (s\<lparr>syncRequestPromises := e\<rparr>) = cacheCoherent s"
  "cacheCoherent (s\<lparr>idMgr := f\<rparr>) = cacheCoherent s"
  "cacheCoherent (s\<lparr>serviceStatusObservers := g\<rparr>) = cacheCoherent s"
  "cacheCoherent (s\<lparr>promiseValues := h\<rparr>) = cacheCoherent s"
  "cacheCoherent (s\<lparr>nextPromise := i\<rparr>) = cacheCoherent s"
  "cacheCoherent (s\<lparr>observerReaction := j\<rparr>) = cacheCoherent s"
  "cacheCoherent (s\<lparr>callbackScript := p\<rparr>) = cacheCoherent s"
  "cacheCoherent (s\<lparr>toServer := k\<rparr>) = cacheCoherent s"
  "cacheCoherent (s\<lparr>invoked := l\<rparr>) = cacheCoherent s"
  "cacheCoherent (s\<lparr>notified := m\<rparr>) = cacheCoherent s"
  "cacheCoherent (s\<lparr>observersLock := n\<rparr>) = cacheCoherent s"
  by (simp_all add: cacheCoherent_def)











lemma promisesPending_update [simp]:
  "promisesPending (s\<lparr>sid := a\<rparr>) = promisesPending s"
  "promisesPending (s\<lparr>client := b\<rparr>) = promisesPending s"
  "promisesPending (s\<lparr>serviceStatus := c\<rparr>) = promisesPending s"
  "promisesPending (s\<lparr>requestEntriesMap := d\<rparr>) = promisesPending s"
  "promisesPending (s\<lparr>registerEntriesMap := e\<rparr>) = promisesPending s"
  "promisesPending (s\<lparr>propertiesCache := f\<rparr>) = promisesPending s"
  "promisesPending (s\<lparr>idMgr := g\<rparr>) = promisesPending s"
  "promisesPending (s\<lparr>serviceStatusObservers := h\<rparr>) = promisesPending s"
  "promisesPending (s\<lparr>observerReaction := i\<rparr>) = promisesPending s"
  "promisesPending (s\<lparr>callbackScript := p\<rparr>) = promisesPending s"
  "promisesPending (s\<lparr>toServer := j\<rparr>) = promisesPending s"
  "promisesPending (s\<lparr>invoked := k\<rparr>) = promisesPending s"
  "promisesPending (s\<lparr>notified := l\<rparr>) = promisesPending s"
  "promisesPending (s\<lparr>observersLock := m\<rparr>) = promisesPending s"
  by (simp_all add: promisesPending_def)
















subsection \<open>A synchronous request that times out\<close>

text \<open>
  A promise leaves \<^verbatim>\<open>syncRequestPromises_\<close> only together with being resolved: whatever
  the transport delivers, a promise that is in the list stays there or gets a value.
\<close>

lemma invokeCallback_listed:
  assumes "p \<in> set (syncRequestPromises s) \<or> promiseValues s p \<noteq> None"
  shows "p \<in> set (syncRequestPromises (finalState (invokeCallback cb msg s)))
       \<or> promiseValues (finalState (invokeCallback cb msg s)) p \<noteq> None"
proof (cases cb)
  case NullCallback
  with assms show ?thesis by simp
next
  case (UserCallback c)
  with assms
    runActions_frame [of "\<lambda>t. p \<in> set (syncRequestPromises t) \<or> promiseValues t p \<noteq> None"
      "callbackScript s c" "s\<lparr>invoked := invoked s @ [(c, msg)]\<rparr>"]
  show ?thesis by simp
next
  case (SyncCallback q)
  show ?thesis
  proof (cases "q = p")
    case True
    with SyncCallback show ?thesis
      by (simp add: set_value_def removeRequestPromies_def split: option.splits)
  next
    case False
    with SyncCallback assms show ?thesis
      by (auto simp add: set_value_def removeRequestPromies_def split: option.splits)
  qed
qed

lemma invokeAll_listed:
  assumes "p \<in> set (syncRequestPromises s) \<or> promiseValues s p \<noteq> None"
  shows "p \<in> set (syncRequestPromises (finalState (invokeAll cbs msg s)))
       \<or> promiseValues (finalState (invokeAll cbs msg s)) p \<noteq> None"
  using assms
proof (induction cbs arbitrary: s)
  case Nil
  then show ?case by simp
next
  case (Cons cb cbs)
  show ?case
  proof (cases msg)
    case None
    with Cons.prems show ?thesis by simp
  next
    case (Some bytes)
    from Cons.prems
    have step: "p \<in> set (syncRequestPromises (finalState (invokeCallback cb (Some bytes) s)))
       \<or> promiseValues (finalState (invokeCallback cb (Some bytes) s)) p \<noteq> None"
      by (rule invokeCallback_listed)
    show ?thesis
    proof (cases "invokeCallback cb (Some bytes) s")
      case (Returned s')
      with step Cons.IH [of s'] Some show ?thesis by simp
    next
      case (NoReturn c s')
      with step Some show ?thesis by simp
    qed
  qed
qed

lemma onIncomingMessage_listed:
  assumes "p \<in> set (syncRequestPromises s) \<or> promiseValues s p \<noteq> None"
  shows "p \<in> set (syncRequestPromises (stateAfter (onIncomingMessage s csMsg)))
       \<or> promiseValues (stateAfter (onIncomingMessage s csMsg)) p \<noteq> None"
proof -
  let ?Q = "\<lambda>t. p \<in> set (syncRequestPromises t) \<or> promiseValues t p \<noteq> None"
  let ?cbs = "map entryCallback (entriesOf (registerEntriesMap s) (operationID csMsg))"
  have "?Q (finalState (invokeAll ?cbs (payload csMsg) s))"
    using assms by (rule invokeAll_listed)
  then have upd: "?Q (stateAfter (onRegistersUpdated s csMsg))"
    by (cases "invokeAll ?cbs (payload csMsg) s") (simp_all add: onRegistersUpdated_def Let_def)
  have ic: "?Q (finalState (invokeCallback cb msg (t\<lparr>requestEntriesMap := m\<rparr>)))"
    if "?Q t" for cb msg t m
    using that invokeCallback_listed [of p "t\<lparr>requestEntriesMap := m\<rparr>" cb msg] by simp
  have res: "?Q (finalState (onRequestResult s csMsg))"
    using assms ic [OF assms]
    by (simp add: onRequestResult_def Let_def split: option.splits)
  show ?thesis
  proof (cases "onRegistersUpdated s csMsg")
    case (Returned r)
    with upd have "?Q (fst r)" by (cases r) simp
    with res assms Returned show ?thesis
      by (cases "onRequestResult s csMsg"; cases r)
        (simp_all add: onIncomingMessage_def cachePropertyStatus_def
          split: OpCode.splits option.splits)
  next
    case (NoReturn c s')
    with upd res assms show ?thesis
      by (cases "onRequestResult s csMsg")
        (simp_all add: onIncomingMessage_def split: OpCode.splits)
  qed
qed

lemma set_value_resolved:
  assumes "promiseValues s p \<noteq> None"
  shows "promiseValues (finalState (set_value q v s)) p \<noteq> None"
  using assms by (simp add: set_value_def split: option.splits)

lemma resolveAll_resolved:
  assumes "p \<in> set ps \<or> promiseValues s p \<noteq> None"
  shows "(\<forall>s'. resolveAll ps s = Returned s' \<longrightarrow> promiseValues s' p \<noteq> None)
       \<and> (promiseValues s p \<noteq> None \<longrightarrow> promiseValues (finalState (resolveAll ps s)) p \<noteq> None)"
  using assms
proof (induction ps arbitrary: s)
  case Nil
  then show ?case by simp
next
  case (Cons q ps)
  show ?case
  proof (cases "set_value q None s")
    case (NoReturn c s')
    then show ?thesis by (auto simp add: set_value_def split: option.splits)
  next
    case (Returned s')
    then have s': "s' = s\<lparr>promiseValues := (promiseValues s)(q \<mapsto> None)\<rparr>"
      by (auto simp add: set_value_def split: option.splits)
    from Cons.prems s' have "p \<in> set ps \<or> promiseValues s' p \<noteq> None" by auto
    from Cons.IH [OF this] Returned s' show ?thesis by auto
  qed
qed

lemma onServiceStatusChanged_listed:
  assumes "p \<in> set (syncRequestPromises s) \<or> promiseValues s p \<noteq> None"
  shows "p \<in> set (syncRequestPromises (finalState (onServiceStatusChanged s sid' old new)))
       \<or> promiseValues (finalState (onServiceStatusChanged s sid' old new)) p \<noteq> None"
proof -
  let ?Q = "\<lambda>t. p \<in> set (syncRequestPromises t) \<or> promiseValues t p \<noteq> None"
  let ?s1 = "s\<lparr>serviceStatus := new\<rparr>"
  have fwd: "?Q (finalState (forwardServiceStatusToObservers t a b c)) = ?Q t" for t a b c
    using forwardServiceStatusToObservers_frame [of ?Q t a b c] by simp
  have ab: "?Q (finalState (abortAllSyncRequest ?s1))
      \<and> (\<forall>s2. abortAllSyncRequest ?s1 = Returned s2 \<longrightarrow> promiseValues s2 p \<noteq> None)"
  proof (cases "resolveAll (syncRequestPromises s) ?s1")
    case (Returned s2)
    with resolveAll_resolved [of p "syncRequestPromises s" ?s1] assms
    show ?thesis by (simp add: abortAllSyncRequest_def)
  next
    case (NoReturn c s2)
    have "syncRequestPromises (finalState (resolveAll (syncRequestPromises s) ?s1))
            = syncRequestPromises ?s1"
      by (rule resolveAll_frame) simp
    with NoReturn resolveAll_resolved [of p "syncRequestPromises s" ?s1] assms
    show ?thesis by (auto simp add: abortAllSyncRequest_def)
  qed
  show ?thesis
  proof (cases "sid' = sid s \<and> new \<noteq> serviceStatus s")
    case False
    with assms show ?thesis by (auto simp add: onServiceStatusChanged_def)
  next
    case changed: True
    show ?thesis
    proof (cases "new = Unavailable")
      case False
      with changed assms fwd [of ?s1] show ?thesis
        by (simp add: onServiceStatusChanged_def Let_def)
    next
      case True
      show ?thesis
      proof (cases "abortAllSyncRequest ?s1")
        case (Returned s2)
        let ?s3 = "clearAllRegisterEntries (clearAllAsyncRequests s2)"
        from Returned ab have "?Q ?s3"
          by (simp add: clearAllAsyncRequests_def clearAllRegisterEntries_def)
        with fwd [of ?s3] have "?Q (finalState (forwardServiceStatusToObservers ?s3 sid' old new))"
          by simp
        with changed True Returned show ?thesis
          by (simp add: onServiceStatusChanged_def Let_def)
      next
        case (NoReturn c s2)
        with ab changed True show ?thesis
          by (simp add: onServiceStatusChanged_def Let_def)
      qed
    qed
  qed
qed

lemma runConcurrently_listed:
  assumes "p \<in> set (syncRequestPromises s) \<or> promiseValues s p \<noteq> None"
  shows "p \<in> set (syncRequestPromises (finalState (runConcurrently during s)))
       \<or> promiseValues (finalState (runConcurrently during s)) p \<noteq> None"
  using assms
proof (induction during arbitrary: s)
  case Nil
  then show ?case by simp
next
  case (Cons e es)
  show ?case
  proof (cases e)
    case (Incoming csMsg)
    note c = onIncomingMessage_listed [OF Cons.prems, of csMsg]
    show ?thesis
    proof (cases "onIncomingMessage s csMsg")
      case (Returned r)
      with c Incoming Cons.IH [of "fst r"] show ?thesis by (cases r) simp
    next
      case (NoReturn cause s')
      with c Incoming show ?thesis by simp
    qed
  next
    case (StatusChanged sid' old new)
    note c = onServiceStatusChanged_listed [OF Cons.prems, of sid' old new]
    show ?thesis
    proof (cases "onServiceStatusChanged s sid' old new")
      case (Returned s')
      with c StatusChanged Cons.IH [of s'] show ?thesis by simp
    next
      case (NoReturn cause s')
      with c StatusChanged show ?thesis by simp
    qed
  qed
qed

text \<open>
  So a synchronous call that returns with another status than the one its send reported
  has timed out: it reports \<^verbatim>\<open>Timeout\<close>, returns the empty payload, and its promise is
  still in the list.
\<close>

lemma timeout_keeps_promise:
  assumes "sendMessageSync s opid opCode msgContent timeout during = Returned (s', v, cs)"
    and "cs \<noteq> snd (snd (sendMessageAsync s opid opCode msgContent (SyncCallback (nextPromise s))))"
  shows "cs = Some Timeout \<and> v = None \<and> nextPromise s \<in> set (syncRequestPromises s')"
proof -
  let ?p = "nextPromise s"
  let ?s0 = "s\<lparr>nextPromise := Suc ?p, promiseValues := (promiseValues s)(?p := None),
               syncRequestPromises := syncRequestPromises s @ [?p]\<rparr>"
  obtain s1 regID cs1 where
    async: "sendMessageAsync ?s0 opid opCode msgContent (SyncCallback ?p) = (s1, regID, cs1)"
    by (cases "sendMessageAsync ?s0 opid opCode msgContent (SyncCallback ?p)")
  have same: "snd (snd (sendMessageAsync ?s0 opid opCode msgContent (SyncCallback ?p)))
      = snd (snd (sendMessageAsync s opid opCode msgContent (SyncCallback ?p)))"
    by (simp add: sendMessageAsync_def storeAndSendRequestToServer_def storeRegEntry_def
        sendMessageToServer_def createCSMessage_def Let_def split_def split: option.splits)
  with async assms(2) have differ: "cs \<noteq> cs1" by simp
  have "syncRequestPromises (fst (sendMessageAsync ?s0 opid opCode msgContent (SyncCallback ?p)))
          = syncRequestPromises ?s0"
    by (rule sendMessageAsync_frame) simp_all
  with async have "?p \<in> set (syncRequestPromises s1)" by simp
  then have listed: "?p \<in> set (syncRequestPromises (finalState (runConcurrently during s1)))
       \<or> promiseValues (finalState (runConcurrently during s1)) ?p \<noteq> None"
    by (intro runConcurrently_listed) simp
  show ?thesis
  proof (cases "valid regID")
    case False
    with async assms(1) differ show ?thesis by (simp add: sendMessageSync_def Let_def)
  next
    case True
    show ?thesis
    proof (cases "runConcurrently during s1")
      case (NoReturn c s2)
      with async True assms(1) show ?thesis by (simp add: sendMessageSync_def Let_def)
    next
      case (Returned s2)
      have keep: "syncRequestPromises (fst (abortRequest s2 regID)) = syncRequestPromises s2"
        by (rule abortRequest_frame) simp_all
      from async True Returned assms(1) differ listed keep show ?thesis
        by (auto simp add: sendMessageSync_def Let_def split_def
            split: option.splits if_splits)
    qed
  qed
qed

text \<open>
  Claim C2. A synchronous request that is not answered within its timeout should remove
  its promise from \<^verbatim>\<open>syncRequestPromises_\<close>, send an \<^verbatim>\<open>Abort\<close> for its request id,
  report \<^verbatim>\<open>Timeout\<close> and return the empty payload. On the available requester, with a
  timeout of 50 ms and no answer, the code does the last three: the pending entry is
  erased, the \<^verbatim>\<open>Abort\<close> with request id 1 follows the request, the status is
  \<^verbatim>\<open>Timeout\<close> and the payload is empty. The promise, numbered 0, is still in the list
  afterwards, unresolved: the timeout branch does not call \<^verbatim>\<open>removeRequestPromies\<close>,
  which the branch for a failed send and the callback both do. The lemma before shows
  the same for every requester and whatever arrives during the wait.
\<close>

theorem timed_out_promise_is_kept:
  "sendRequest demoAvailable ''echo'' (Some [1, 2]) 50 []
     = Returned (demoTimedOut, None, Some Timeout)
   \<and> syncRequestPromises demoAvailable = []
   \<and> syncRequestPromises demoTimedOut = [0]
   \<and> promiseValues demoTimedOut 0 = None
   \<and> requestEntriesMap demoTimedOut ''echo'' = Some []
   \<and> toServer demoTimedOut
       = [(\<lparr>serviceID = ''svc'', operationID = ''echo'', operationCode = Request,
            msgRequestID = 1, payload = Some [1, 2]\<rparr>, Success),
          (\<lparr>serviceID = ''svc'', operationID = ''echo'', operationCode = Abort,
            msgRequestID = 1, payload = None\<rparr>, Success)]"
  by (simp add: demoTimedOut_def demoAvailable_eq demoRequester_def newServiceRequester_def
      sendRequest_def serviceUnavailable_def sendMessageSync_def
      sendMessageAsync_def storeAndSendRequestToServer_def storeRegEntry_def
      allocateUniqueID_def entriesOf_def sendMessageToServer_def demoClient_def createCSMessage_def
      setRequestID_def valid_def RequestIDInvalid_def RequestTimeoutMs_max_def
      abortRequest_def Let_def)


subsection \<open>Requests while the service is not available\<close>

text \<open>
  Claim C3. A call of \<^verbatim>\<open>sendRequestAsync\<close> or \<^verbatim>\<open>sendRequest\<close> made while the service
  status is not \<^verbatim>\<open>Available\<close> fails at once: it reports \<^verbatim>\<open>ServiceUnavailable\<close>, the
  asynchronous call returns the default \<^verbatim>\<open>RegID\<close>, which is invalid, the synchronous
  one the empty payload, and the requester is returned as it was, so its four tables are
  unchanged and no callback has been added to the trace of invocations.
\<close>

theorem unavailable_request_fails:
  "serviceStatus s \<noteq> Available \<Longrightarrow>
     sendRequestAsync s opid msgContent cb = (s, RegID_default, Some ServiceUnavailable)
     \<and> \<not> valid RegID_default
     \<and> sendRequest s opid msgContent timeout during
         = Returned (s, None, Some ServiceUnavailable)"
  by (simp add: sendRequestAsync_def sendRequest_def serviceUnavailable_def valid_def
      RegID_default_def)

theorem unavailable_request_fails_witness:
  "serviceStatus demoRequester \<noteq> Available
   \<and> sendRequestAsync demoRequester ''echo'' (Some [1, 2]) (UserCallback 0)
       = (demoRequester, RegID_default, Some ServiceUnavailable)
   \<and> \<not> valid RegID_default
   \<and> sendRequest demoRequester ''echo'' (Some [1, 2]) 50 []
       = Returned (demoRequester, None, Some ServiceUnavailable)"
  using unavailable_request_fails
    [of demoRequester "''echo''" "Some [1, 2]" "UserCallback 0" 50 "[]"]
  by (simp add: demoRequester_def newServiceRequester_def)


subsection \<open>Reading a status\<close>





















subsection \<open>Unregistering\<close>

lemma eraseFirst_found:
  "findEntry rid es = Some e \<Longrightarrow>
     \<exists>before after. es = before @ e # after
       \<and> (\<forall>x \<in> set before. entryRequestID x \<noteq> rid)
       \<and> entryRequestID e = rid
       \<and> eraseFirst rid es = before @ after"
proof (induction es)
  case Nil
  then show ?case by simp
next
  case (Cons a es)
  show ?case
  proof (cases "entryRequestID a = rid")
    case True
    with Cons.prems have "a = e" by simp
    with True show ?thesis by (intro exI [of _ "[]"] exI [of _ es]) simp
  next
    case False
    with Cons.prems have "findEntry rid es = Some e" by simp
    from Cons.IH [OF this] obtain before after where
      "es = before @ e # after" "\<forall>x \<in> set before. entryRequestID x \<noteq> rid"
      "entryRequestID e = rid" "eraseFirst rid es = before @ after"
      by blast
    with False show ?thesis
      by (intro exI [of _ "a # before"] exI [of _ after]) simp
  qed
qed

lemma eraseFirst_not_found: "findEntry rid es = None \<Longrightarrow> eraseFirst rid es = es"
  by (induction es) (auto split: if_splits)

text \<open>
  Claim C5, amended. \<^verbatim>\<open>unregister\<close> with a valid \<^verbatim>\<open>RegID\<close>, the service available and
  the operation registered: the first entry carrying the request id is erased from the
  operation's list. When the list is empty afterwards the operation leaves the
  registrations and its entry leaves the property cache; the \<^verbatim>\<open>Unregister\<close> envelope for
  the operation is handed to the client when the client still exists, and then it is
  the one envelope added to those sent, with whatever status the client answers; when
  the client is gone nothing is sent. When entries remain they stay registered, the cache
  is unchanged and nothing is sent. The call reports \<^verbatim>\<open>Success\<close> in every case.
\<close>

theorem unregister_last_registration:
  assumes "serviceStatus s = Available"
    and "valid regID"
    and "registerEntriesMap s (opID regID) = Some es"
  shows "snd (unregister s regID) = Success
       \<and> (\<forall>e. findEntry (requestID regID) es = Some e \<longrightarrow>
            (\<exists>before after. es = before @ e # after
               \<and> (\<forall>x \<in> set before. entryRequestID x \<noteq> requestID regID)
               \<and> eraseFirst (requestID regID) es = before @ after))
       \<and> (eraseFirst (requestID regID) es = [] \<longrightarrow>
            registerEntriesMap (fst (unregister s regID))
              = (registerEntriesMap s)(opID regID := None)
            \<and> propertiesCache (fst (unregister s regID))
              = (propertiesCache s)(opID regID := None)
            \<and> toServer (fst (unregister s regID)) = toServer s @
                 (case client s of
                    None \<Rightarrow> []
                  | Some c \<Rightarrow>
                      [(\<lparr>serviceID = sid s, operationID = opID regID,
                         operationCode = Unregister, msgRequestID = RequestIDInvalid,
                         payload = None\<rparr>,
                        c \<lparr>serviceID = sid s, operationID = opID regID,
                           operationCode = Unregister, msgRequestID = RequestIDInvalid,
                           payload = None\<rparr>)]))
       \<and> (eraseFirst (requestID regID) es \<noteq> [] \<longrightarrow>
            registerEntriesMap (fst (unregister s regID))
              = (registerEntriesMap s)(opID regID \<mapsto> eraseFirst (requestID regID) es)
            \<and> propertiesCache (fst (unregister s regID)) = propertiesCache s
            \<and> toServer (fst (unregister s regID)) = toServer s)"
proof -
  have found: "\<forall>e. findEntry (requestID regID) es = Some e \<longrightarrow>
            (\<exists>before after. es = before @ e # after
               \<and> (\<forall>x \<in> set before. entryRequestID x \<noteq> requestID regID)
               \<and> eraseFirst (requestID regID) es = before @ after)"
    using eraseFirst_found by blast
  have rest: "snd (unregister s regID) = Success
       \<and> (eraseFirst (requestID regID) es = [] \<longrightarrow>
            registerEntriesMap (fst (unregister s regID))
              = (registerEntriesMap s)(opID regID := None)
            \<and> propertiesCache (fst (unregister s regID))
              = (propertiesCache s)(opID regID := None)
            \<and> toServer (fst (unregister s regID)) = toServer s @
                 (case client s of
                    None \<Rightarrow> []
                  | Some c \<Rightarrow>
                      [(\<lparr>serviceID = sid s, operationID = opID regID,
                         operationCode = Unregister, msgRequestID = RequestIDInvalid,
                         payload = None\<rparr>,
                        c \<lparr>serviceID = sid s, operationID = opID regID,
                           operationCode = Unregister, msgRequestID = RequestIDInvalid,
                           payload = None\<rparr>)]))
       \<and> (eraseFirst (requestID regID) es \<noteq> [] \<longrightarrow>
            registerEntriesMap (fst (unregister s regID))
              = (registerEntriesMap s)(opID regID \<mapsto> eraseFirst (requestID regID) es)
            \<and> propertiesCache (fst (unregister s regID)) = propertiesCache s
            \<and> toServer (fst (unregister s regID)) = toServer s)"
    using assms
    by (simp add: unregister_def serviceUnavailable_def removeRegEntry_def
        removeCachedProperty_def sendMessageToServer_def createCSMessage_def Let_def
        split: option.splits)
  from found rest show ?thesis by blast
qed

theorem unregister_last_registration_witness:
  "serviceStatus demoUpdated = Available \<and> valid (RegID ''x'' 1)
   \<and> registerEntriesMap demoUpdated ''x'' = Some [RegEntry 1 (UserCallback 1)]
   \<and> findEntry 1 [RegEntry 1 (UserCallback 1)] = Some (RegEntry 1 (UserCallback 1))
   \<and> eraseFirst 1 [RegEntry 1 (UserCallback 1)] = []
   \<and> client demoUpdated = Some demoClient
   \<and> registerEntriesMap (fst (unregister demoUpdated (RegID ''x'' 1))) ''x'' = None
   \<and> propertiesCache (fst (unregister demoUpdated (RegID ''x'' 1))) ''x'' = None
   \<and> toServer (fst (unregister demoUpdated (RegID ''x'' 1))) = toServer demoUpdated @
        [(\<lparr>serviceID = ''svc'', operationID = ''x'', operationCode = Unregister,
           msgRequestID = RequestIDInvalid, payload = None\<rparr>, Success)]
   \<and> serviceStatus demoOrphaned = Available
   \<and> registerEntriesMap demoOrphaned ''x'' = Some [RegEntry 1 (UserCallback 1)]
   \<and> client demoOrphaned = None
   \<and> propertiesCache (fst (unregister demoOrphaned (RegID ''x'' 1))) ''x'' = None
   \<and> toServer (fst (unregister demoOrphaned (RegID ''x'' 1))) = toServer demoOrphaned
   \<and> registerEntriesMap (stateAfter (registerStatus demoUpdated ''x'' (UserCallback 2))) ''x''
       = Some [RegEntry 1 (UserCallback 1), RegEntry 2 (UserCallback 2)]
   \<and> eraseFirst 1 [RegEntry 1 (UserCallback 1), RegEntry 2 (UserCallback 2)] \<noteq> []
   \<and> toServer (fst (unregister (stateAfter (registerStatus demoUpdated ''x'' (UserCallback 2)))
          (RegID ''x'' 1)))
       = toServer demoUpdated
   \<and> propertiesCache (fst (unregister (stateAfter (registerStatus demoUpdated ''x''
          (UserCallback 2))) (RegID ''x'' 1))) ''x''
       = Some [5]"
  using unregister_last_registration
      [of demoUpdated "RegID ''x'' 1" "[RegEntry 1 (UserCallback 1)]"]
    unregister_last_registration
      [of demoOrphaned "RegID ''x'' 1" "[RegEntry 1 (UserCallback 1)]"]
    unregister_last_registration
      [of "stateAfter (registerStatus demoUpdated ''x'' (UserCallback 2))" "RegID ''x'' 1"
          "[RegEntry 1 (UserCallback 1), RegEntry 2 (UserCallback 2)]"]
  by (simp add: demo_second_registerStatus)
    (simp add: demoOrphaned_def clientExpired_def demoUpdated_eq demoRegistered_eq
      demoAvailable_eq demoRequester_def
      newServiceRequester_def valid_def RequestIDInvalid_def unregister_def
      serviceUnavailable_def removeRegEntry_def removeCachedProperty_def
      sendMessageToServer_def demoClient_def createCSMessage_def Let_def)

text \<open>
  The claim as first stated fails on the requester whose client has been destroyed while
  the service still counts as available, a state reached without any loss of the
  service. Unregistering the one registration for \<open>x\<close> reports \<^verbatim>\<open>Success\<close>, removes
  the registration and the cache entry, and sends nothing: \<^verbatim>\<open>sendMessageToServer\<close> finds
  the weak pointer expired, and \<^verbatim>\<open>unregister\<close> does not look at what it answers.
\<close>

theorem unregister_counterexample:
  "reachable False demoOrphaned
   \<and> serviceStatus demoOrphaned = Available \<and> valid (RegID ''x'' 1)
   \<and> registerEntriesMap demoOrphaned ''x'' = Some [RegEntry 1 (UserCallback 1)]
   \<and> propertiesCache demoOrphaned ''x'' = Some [5]
   \<and> snd (unregister demoOrphaned (RegID ''x'' 1)) = Success
   \<and> registerEntriesMap (fst (unregister demoOrphaned (RegID ''x'' 1))) ''x'' = None
   \<and> propertiesCache (fst (unregister demoOrphaned (RegID ''x'' 1))) ''x'' = None
   \<and> toServer (fst (unregister demoOrphaned (RegID ''x'' 1))) = toServer demoOrphaned"
  using reachable_demoOrphaned [of False]
  by (simp add: demoOrphaned_def clientExpired_def demoUpdated_eq demoRegistered_eq
      demoAvailable_eq demoRequester_def
      newServiceRequester_def valid_def RequestIDInvalid_def unregister_def
      serviceUnavailable_def removeRegEntry_def removeCachedProperty_def
      sendMessageToServer_def createCSMessage_def Let_def)


subsection \<open>Shutting the router down\<close>

text \<open>
  Claim C6. \<^verbatim>\<open>IAMessageRouter::deinit\<close> is meant to deinitialize the client base and
  the server base once each. The code names \<^verbatim>\<open>ClientBase::deinit\<close> on both sides of
  \<^verbatim>\<open>&&\<close>: whatever the router, the server base receives no \<^verbatim>\<open>deinit\<close> call, and on a
  router whose bases answer \<^verbatim>\<open>true\<close> the client base receives two. \<^verbatim>\<open>init\<close>, next to
  it, does reach the server base.
\<close>

theorem deinit_never_reaches_server:
  "serverDeinitCalls (fst (IAMessageRouter_deinit r)) = serverDeinitCalls r
   \<and> clientDeinitCalls (fst (IAMessageRouter_deinit newRouter)) = 2
   \<and> serverDeinitCalls (fst (IAMessageRouter_deinit newRouter)) = 0
   \<and> serverInitCalls (fst (IAMessageRouter_init newRouter)) = 1"
  by (simp add: IAMessageRouter_deinit_def IAMessageRouter_init_def ClientBase_deinit_def
      ClientBase_init_def ServerBase_init_def newRouter_def)


subsection \<open>The status of a decoding\<close>

text \<open>
  Claim C7, amended. Decoding a null payload, or a payload without a byte stream, reports
  \<^verbatim>\<open>NoSource\<close> and returns null. A stream left failed by the deserializer reports
  \<^verbatim>\<open>SourceCorrupted\<close> and returns the message as far as it was filled; a
  \<^verbatim>\<open>std::exception\<close> of the deserializer reports \<^verbatim>\<open>DestSrcMismatch\<close> and returns null;
  any other exception of the deserializer leaves \<^verbatim>\<open>translate\<close> with no status written;
  otherwise the status is \<^verbatim>\<open>Success\<close> and the decoded message is returned. A status is
  written exactly when the call returns, and the call fails to return exactly when the
  deserializer throws something that is no \<^verbatim>\<open>std::exception\<close>.
\<close>

theorem translate_reports:
  "translate dsr None = (Returns None, Some NoSource)
   \<and> translate dsr (Some \<lparr>stream = None\<rparr>) = (Returns None, Some NoSource)
   \<and> (dsr bs = Extracted m True \<longrightarrow>
        translate dsr (Some \<lparr>stream = Some bs\<rparr>) = (Returns (Some m), Some SourceCorrupted))
   \<and> (dsr bs = ThrowsStdException \<longrightarrow>
        translate dsr (Some \<lparr>stream = Some bs\<rparr>) = (Returns None, Some DestSrcMismatch))
   \<and> (dsr bs = ThrowsOther \<longrightarrow>
        translate dsr (Some \<lparr>stream = Some bs\<rparr>) = (Escapes, None))
   \<and> (dsr bs = Extracted m False \<longrightarrow>
        translate dsr (Some \<lparr>stream = Some bs\<rparr>) = (Returns (Some m), Some Success_translation))
   \<and> (snd (translate dsr pl) = None \<longleftrightarrow> fst (translate dsr pl) = Escapes)
   \<and> (fst (translate dsr pl) = Escapes
        \<longleftrightarrow> (\<exists>stream'. pl = Some \<lparr>stream = Some stream'\<rparr> \<and> dsr stream' = ThrowsOther))"
proof -
  have written: "snd (translate dsr pl) = None \<longleftrightarrow> fst (translate dsr pl) = Escapes"
    by (simp add: translate_def split: option.splits Deserialized.splits)
  have escapes: "fst (translate dsr pl) = Escapes
      \<longleftrightarrow> (\<exists>stream'. pl = Some \<lparr>stream = Some stream'\<rparr> \<and> dsr stream' = ThrowsOther)"
  proof (cases pl)
    case None
    then show ?thesis by (simp add: translate_def)
  next
    case (Some incomingPayload)
    then show ?thesis
      by (cases incomingPayload)
        (auto simp add: translate_def split: option.splits Deserialized.splits)
  qed
  from written escapes show ?thesis by (simp add: translate_def)
qed

theorem translate_reports_witness:
  "byteDeserializer [7, 8] = Extracted 7 True
   \<and> translate byteDeserializer (Some \<lparr>stream = Some [7, 8]\<rparr>)
       = (Returns (Some 7), Some SourceCorrupted)
   \<and> byteDeserializer [] = ThrowsStdException
   \<and> translate byteDeserializer (Some \<lparr>stream = Some []\<rparr>)
       = (Returns None, Some DestSrcMismatch)
   \<and> byteDeserializer [255, 7] = ThrowsOther
   \<and> translate byteDeserializer (Some \<lparr>stream = Some [255, 7]\<rparr>) = (Escapes, None)
   \<and> byteDeserializer [7] = Extracted 7 False
   \<and> translate byteDeserializer (Some \<lparr>stream = Some [7]\<rparr>)
       = (Returns (Some 7), Some Success_translation)"
  using translate_reports [of byteDeserializer "[7, 8]" 7 None]
    translate_reports [of byteDeserializer "[]" 7 None]
    translate_reports [of byteDeserializer "[255, 7]" 7 None]
    translate_reports [of byteDeserializer "[7]" 7 None]
  by (simp add: byteDeserializer_def)

text \<open>
  The claim as first stated fails on a byte stream for which the deserializer throws
  something that is no \<^verbatim>\<open>std::exception\<close>: the one handler of \<^verbatim>\<open>translate\<close> does not
  catch it, so the call neither reports \<^verbatim>\<open>DestSrcMismatch\<close> nor returns null; the
  exception reaches the caller and no status has been written.
\<close>

theorem translate_counterexample:
  "byteDeserializer [255] = ThrowsOther
   \<and> translate byteDeserializer (Some \<lparr>stream = Some [255]\<rparr>) = (Escapes, None)"
  by (simp add: byteDeserializer_def translate_def)


subsection \<open>Notifying the observers\<close>

text \<open>
  The loop in general. Every call it makes is made under the lock. When no observer
  throws anything but \<^verbatim>\<open>UnavailableException\<close>, all observers are called in order and
  exactly those that returned stay in the list. The first observer that throws something
  else ends the loop: the exception leaves the call, the observers after it are not
  called, and of those before it the ones that returned stay.
\<close>

lemma notifyFrom_reaction:
  "observerReaction (finalState (notifyFrom passed rest sid' old new s)) = observerReaction s"
  by (rule notifyFrom_frame) simp_all

lemma notifyFrom_under_lock:
  "\<exists>calls. notified (finalState (notifyFrom passed rest sid' old new s)) = notified s @ calls
     \<and> (\<forall>n \<in> set calls. lockHeld n = observersLock s \<and> notifiedSid n = sid'
            \<and> oldStatus n = old \<and> newStatus n = new)"
proof (induction rest arbitrary: passed s)
  case Nil
  then show ?case by simp
next
  case (Cons obs rest)
  let ?n = "\<lparr>observer = obs, notifiedSid = sid', oldStatus = old, newStatus = new,
             lockHeld = observersLock s\<rparr>"
  let ?s1 = "s\<lparr>notified := notified s @ [?n]\<rparr>"
  have step: "\<exists>calls. notified (finalState (notifyFrom p rest sid' old new ?s1))
                 = notified s @ calls
               \<and> (\<forall>n \<in> set calls. lockHeld n = observersLock s \<and> notifiedSid n = sid'
                      \<and> oldStatus n = old \<and> newStatus n = new)" for p
  proof -
    from Cons.IH [of p ?s1] obtain calls where
      "notified (finalState (notifyFrom p rest sid' old new ?s1)) = notified ?s1 @ calls"
      "\<forall>n \<in> set calls. lockHeld n = observersLock ?s1 \<and> notifiedSid n = sid'
          \<and> oldStatus n = old \<and> newStatus n = new"
      by blast
    then show ?thesis by (intro exI [of _ "?n # calls"]) simp
  qed
  show ?case
  proof (cases "observerReaction s obs old new")
    case Accepts
    with step [of "passed @ [obs]"] show ?thesis by (simp add: Let_def)
  next
    case (Throws e)
    show ?thesis
    proof (cases "e = UnavailableException")
      case True
      with Throws step [of passed] show ?thesis by (simp add: Let_def)
    next
      case False
      with Throws show ?thesis by (simp add: Let_def)
    qed
  qed
qed

lemma forward_under_lock:
  "\<exists>calls. notified (finalState (forwardServiceStatusToObservers s sid' old new))
              = notified s @ calls
     \<and> (\<forall>n \<in> set calls. lockHeld n)"
proof -
  let ?run = "notifyFrom [] (serviceStatusObservers s) sid' old new (s\<lparr>observersLock := True\<rparr>)"
  from notifyFrom_under_lock [of "[]" "serviceStatusObservers s" sid' old new
      "s\<lparr>observersLock := True\<rparr>"]
  obtain calls where "notified (finalState ?run) = notified s @ calls"
    "\<forall>n \<in> set calls. lockHeld n"
    by auto
  then show ?thesis
    by (cases ?run) (auto simp add: forwardServiceStatusToObservers_def)
qed

lemma notifyFrom_removes_unavailable:
  assumes "\<forall>obs \<in> set rest. observerReaction s obs old new = Accepts
             \<or> observerReaction s obs old new = Throws UnavailableException"
  shows "\<exists>s'. notifyFrom passed rest sid' old new s = Returned s'
           \<and> serviceStatusObservers s'
               = passed @ filter (\<lambda>obs. observerReaction s obs old new = Accepts) rest
           \<and> map observer (drop (length (notified s)) (notified s')) = rest"
  using assms
proof (induction rest arbitrary: passed s)
  case Nil
  then show ?case by simp
next
  case (Cons obs rest)
  let ?s1 = "s\<lparr>notified := notified s @
               [\<lparr>observer = obs, notifiedSid = sid', oldStatus = old, newStatus = new,
                 lockHeld = observersLock s\<rparr>]\<rparr>"
  from Cons.prems have rest: "\<forall>x \<in> set rest. observerReaction ?s1 x old new = Accepts
             \<or> observerReaction ?s1 x old new = Throws UnavailableException"
    by simp
  have step: "\<exists>s'. notifyFrom p rest sid' old new ?s1 = Returned s'
           \<and> serviceStatusObservers s'
               = p @ filter (\<lambda>x. observerReaction s x old new = Accepts) rest
           \<and> map observer (drop (length (notified s)) (notified s')) = obs # rest" for p
  proof -
    from Cons.IH [OF rest, of p] obtain s' where s':
      "notifyFrom p rest sid' old new ?s1 = Returned s'"
      "serviceStatusObservers s' = p @ filter (\<lambda>x. observerReaction ?s1 x old new = Accepts) rest"
      "map observer (drop (length (notified ?s1)) (notified s')) = rest"
      by blast
    from notifyFrom_under_lock [of p rest sid' old new ?s1] s'(1) obtain calls where
      calls: "notified s' = notified ?s1 @ calls"
      by auto
    with s'(3) have "map observer (drop (length (notified s)) (notified s')) = obs # rest"
      by simp
    with s' show ?thesis by simp
  qed
  from Cons.prems have "observerReaction s obs old new = Accepts
      \<or> observerReaction s obs old new = Throws UnavailableException"
    by simp
  then show ?case
  proof
    assume "observerReaction s obs old new = Accepts"
    with step [of "passed @ [obs]"] show ?thesis by (simp add: Let_def)
  next
    assume "observerReaction s obs old new = Throws UnavailableException"
    with step [of passed] show ?thesis by (simp add: Let_def)
  qed
qed

lemma forward_removes_unavailable:
  assumes "\<forall>obs \<in> set (serviceStatusObservers s). observerReaction s obs old new = Accepts
             \<or> observerReaction s obs old new = Throws UnavailableException"
  shows "\<exists>s'. forwardServiceStatusToObservers s sid' old new = Returned s'
           \<and> serviceStatusObservers s'
               = filter (\<lambda>obs. observerReaction s obs old new = Accepts)
                   (serviceStatusObservers s)
           \<and> map observer (drop (length (notified s)) (notified s'))
               = serviceStatusObservers s"
proof -
  from assms
  have "\<forall>obs \<in> set (serviceStatusObservers s).
          observerReaction (s\<lparr>observersLock := True\<rparr>) obs old new = Accepts
          \<or> observerReaction (s\<lparr>observersLock := True\<rparr>) obs old new
              = Throws UnavailableException"
    by simp
  from notifyFrom_removes_unavailable [OF this, of "[]" sid'] show ?thesis
    by (auto simp add: forwardServiceStatusToObservers_def)
qed

lemma notifyFrom_propagates:
  assumes "\<forall>obs \<in> set before. observerReaction s obs old new = Accepts
             \<or> observerReaction s obs old new = Throws UnavailableException"
    and "observerReaction s culprit old new = Throws e"
    and "e \<noteq> UnavailableException"
  shows "\<exists>s'. notifyFrom passed (before @ culprit # after) sid' old new s
               = NoReturn (Threw e) s'
           \<and> serviceStatusObservers s'
               = passed @ filter (\<lambda>obs. observerReaction s obs old new = Accepts) before
                   @ culprit # after
           \<and> map observer (drop (length (notified s)) (notified s')) = before @ [culprit]"
  using assms
proof (induction before arbitrary: passed s)
  case Nil
  then show ?case by (simp add: Let_def)
next
  case (Cons obs before)
  let ?s1 = "s\<lparr>notified := notified s @
               [\<lparr>observer = obs, notifiedSid = sid', oldStatus = old, newStatus = new,
                 lockHeld = observersLock s\<rparr>]\<rparr>"
  from Cons.prems have pre: "\<forall>x \<in> set before. observerReaction ?s1 x old new = Accepts
             \<or> observerReaction ?s1 x old new = Throws UnavailableException"
    and cul: "observerReaction ?s1 culprit old new = Throws e"
    by simp_all
  have step: "\<exists>s'. notifyFrom p (before @ culprit # after) sid' old new ?s1
               = NoReturn (Threw e) s'
           \<and> serviceStatusObservers s'
               = p @ filter (\<lambda>x. observerReaction s x old new = Accepts) before
                   @ culprit # after
           \<and> map observer (drop (length (notified s)) (notified s'))
               = obs # before @ [culprit]" for p
  proof -
    from Cons.IH [OF pre cul Cons.prems(3), of p] obtain s' where s':
      "notifyFrom p (before @ culprit # after) sid' old new ?s1 = NoReturn (Threw e) s'"
      "serviceStatusObservers s'
         = p @ filter (\<lambda>x. observerReaction ?s1 x old new = Accepts) before @ culprit # after"
      "map observer (drop (length (notified ?s1)) (notified s')) = before @ [culprit]"
      by blast
    from notifyFrom_under_lock [of p "before @ culprit # after" sid' old new ?s1] s'(1)
    obtain calls where "notified s' = notified ?s1 @ calls"
      by auto
    with s'(3) have "map observer (drop (length (notified s)) (notified s'))
        = obs # before @ [culprit]"
      by simp
    with s' show ?thesis by simp
  qed
  from Cons.prems have "observerReaction s obs old new = Accepts
      \<or> observerReaction s obs old new = Throws UnavailableException"
    by simp
  then show ?case
  proof
    assume "observerReaction s obs old new = Accepts"
    with step [of "passed @ [obs]"] show ?thesis by (simp add: Let_def)
  next
    assume "observerReaction s obs old new = Throws UnavailableException"
    with step [of passed] show ?thesis by (simp add: Let_def)
  qed
qed

lemma forward_propagates:
  assumes "serviceStatusObservers s = before @ culprit # after"
    and "\<forall>obs \<in> set before. observerReaction s obs old new = Accepts
             \<or> observerReaction s obs old new = Throws UnavailableException"
    and "observerReaction s culprit old new = Throws e"
    and "e \<noteq> UnavailableException"
  shows "\<exists>s'. forwardServiceStatusToObservers s sid' old new = NoReturn (Threw e) s'
           \<and> serviceStatusObservers s'
               = filter (\<lambda>obs. observerReaction s obs old new = Accepts) before
                   @ culprit # after
           \<and> map observer (drop (length (notified s)) (notified s')) = before @ [culprit]"
proof -
  from assms(2)
  have before: "\<forall>obs \<in> set before.
          observerReaction (s\<lparr>observersLock := True\<rparr>) obs old new = Accepts
          \<or> observerReaction (s\<lparr>observersLock := True\<rparr>) obs old new
              = Throws UnavailableException"
    by simp
  from assms(3)
  have culprit: "observerReaction (s\<lparr>observersLock := True\<rparr>) culprit old new = Throws e"
    by simp
  from notifyFrom_propagates [OF before culprit assms(4), of "[]" after sid'] assms(1)
  show ?thesis
    by (auto simp add: forwardServiceStatusToObservers_def)
qed

text \<open>
  Claim C8. With the observers 1, 2 and 4 registered, of which 2 throws
  \<^verbatim>\<open>UnavailableException\<close>, a status change notifies all three, removes observer 2 and
  returns. With 1, 3 and 4 registered, of which 3 throws another \<^verbatim>\<open>std::exception\<close>,
  the exception leaves the call after observer 3, observer 4 is not notified and the
  list is unchanged. So far the claim holds. But every one of these notifications is made
  with the lock of the observer list held, on the list itself:
  \<^verbatim>\<open>forwardServiceStatusToObservers\<close> takes the \<^verbatim>\<open>lock_guard\<close> before the loop and
  takes no snapshot, where the claim has the observers called on a snapshot outside the
  lock, as \<^verbatim>\<open>registerServiceStatusObserver\<close> does for its one notification. The lemmas
  before show all of this for every requester.
\<close>

theorem observers_notified_under_lock:
  "onServiceStatusChanged (demoObserved [1, 2, 4]) ''svc'' Unknown Available
     = Returned (demoRequester
         \<lparr>serviceStatus := Available, serviceStatusObservers := [1, 4],
          notified :=
            [\<lparr>observer = 1, notifiedSid = ''svc'', oldStatus = Unknown,
               newStatus = Available, lockHeld = True\<rparr>,
             \<lparr>observer = 2, notifiedSid = ''svc'', oldStatus = Unknown,
               newStatus = Available, lockHeld = True\<rparr>,
             \<lparr>observer = 4, notifiedSid = ''svc'', oldStatus = Unknown,
               newStatus = Available, lockHeld = True\<rparr>]\<rparr>)
   \<and> onServiceStatusChanged (demoObserved [1, 3, 4]) ''svc'' Unknown Available
     = NoReturn (Threw StdException) (demoRequester
         \<lparr>serviceStatus := Available, serviceStatusObservers := [1, 3, 4],
          notified :=
            [\<lparr>observer = 1, notifiedSid = ''svc'', oldStatus = Unknown,
               newStatus = Available, lockHeld = True\<rparr>,
             \<lparr>observer = 3, notifiedSid = ''svc'', oldStatus = Unknown,
               newStatus = Available, lockHeld = True\<rparr>]\<rparr>)"
  unfolding demoObserved_124 demoObserved_134
  by (simp add: demoRequester_def newServiceRequester_def onServiceStatusChanged_def
      forwardServiceStatusToObservers_def demoReaction_def Let_def)


subsection \<open>Registering an observer\<close>

text \<open>
  Claim C9. A non-null observer passed to \<^verbatim>\<open>registerServiceStatusObserver\<close> is appended
  to the observer list; when the status read together with that insertion is
  \<^verbatim>\<open>Available\<close> the observer is notified exactly once, with the transition from
  \<^verbatim>\<open>Unknown\<close> to \<^verbatim>\<open>Available\<close> and after the lock has been released; otherwise nobody
  is notified. A null observer leaves the requester as it was.
\<close>

theorem observer_registration:
  "registerServiceStatusObserver s None = Returned s
   \<and> (serviceStatus s \<noteq> Available \<longrightarrow>
        registerServiceStatusObserver s (Some obs)
          = Returned (s\<lparr>serviceStatusObservers := serviceStatusObservers s @ [obs],
                        observersLock := False\<rparr>))
   \<and> (serviceStatus s = Available \<longrightarrow>
        registerServiceStatusObserver s (Some obs)
          = (let s' = s\<lparr>serviceStatusObservers := serviceStatusObservers s @ [obs],
                         observersLock := False,
                         notified := notified s @
                           [\<lparr>observer = obs, notifiedSid = sid s, oldStatus = Unknown,
                             newStatus = Available, lockHeld = False\<rparr>]\<rparr>
             in case observerReaction s obs Unknown Available of
                  Accepts \<Rightarrow> Returned s'
                | Throws e \<Rightarrow> NoReturn (Threw e) s'))"
  by (simp add: registerServiceStatusObserver_def Let_def)

theorem observer_registration_witness:
  "serviceStatus demoRequester \<noteq> Available
   \<and> registerServiceStatusObserver demoRequester (Some 1)
       = Returned (demoRequester\<lparr>serviceStatusObservers := [1]\<rparr>)
   \<and> serviceStatus demoAvailable = Available
   \<and> registerServiceStatusObserver demoAvailable (Some 1)
       = Returned (demoAvailable\<lparr>serviceStatusObservers := [1],
            notified := [\<lparr>observer = 1, notifiedSid = ''svc'', oldStatus = Unknown,
                           newStatus = Available, lockHeld = False\<rparr>]\<rparr>)"
  using observer_registration [of demoRequester 1] observer_registration [of demoAvailable 1]
  by (simp add: demoAvailable_eq demoRequester_def newServiceRequester_def demoReaction_def)


subsection \<open>Registering for a status or a signal\<close>




end
